theory Spec2Isabelle
  imports Main
begin

section \<open>The TPIP updater \<^verbatim>\<open>scripts/update-tpip.ts\<close>\<close>

text \<open>
  The script reads a manifest of tracked third-party dependencies and the lock file of
  the package manager, resolves the runtime dependencies of the root package, appends
  the ones the manifest lacks, refreshes version and licence of the ones that drifted,
  writes the manifest back and returns an exit code.

  Conventions of the embedding.
  \<^item> A string is the list of its bytes in UTF-8. The script only compares strings,
    tests ASCII prefixes and copies them, which is the same on bytes as on UTF-16
    code units for well-formed text.
  \<^item> A JavaScript object that the script enumerates (\<^verbatim>\<open>dependencies\<close>, \<^verbatim>\<open>results\<close>) is
    the list of its own (key, value) pairs in the order \<^verbatim>\<open>Object.keys\<close> yields them;
    a key occurs once in an object. A new key is appended at the end, which is where
    \<^verbatim>\<open>Object.keys\<close> puts a key that is not an array index.
  \<^item> An object that is only indexed (\<^verbatim>\<open>lockJson.packages\<close>, the file system under
    \<^verbatim>\<open>node_modules\<close>) is a map.
  \<^item> Every \<^verbatim>\<open>console\<close> call is an event that carries the interpolated values, in the
    order the calls are made.
  \<^item> The input files parse to values of their declared types.
\<close>

subsection \<open>Data\<close>

text \<open>
  \<^verbatim>\<open>type Package = { version: string, dependencies: { [ name: string ]: string } }\<close>,
  where \<^verbatim>\<open>dependencies\<close> may be missing (the resolver reads it with \<^verbatim>\<open>?? {}\<close>);
  \<^verbatim>\<open>type PackageJson = { name: string, version: string, license: string }\<close>;
  \<^verbatim>\<open>type PackageLockJson = { packages: { [ name: string ] : Package } }\<close>;
  \<^verbatim>\<open>type TpipDependency = { name, version, spdx, url, license: string }\<close>.
  The fields of the first two carry a prefix, the ones of a manifest entry keep their
  names.

  An object lists its members in an order of its own, the one \<^verbatim>\<open>Object.keys\<close> and
  \<^verbatim>\<open>JSON.stringify\<close> follow: for an entry read from the manifest it is the order of the
  file, for an object literal the order in which the literal names the members; an
  assignment to a member that exists leaves it where it is. A manifest entry carries
  this order in \<open>ownKeys\<close>.
\<close>

datatype member = M_name | M_version | M_spdx | M_url | M_license

record Package =
  pkg_version :: string
  dependencies :: "(string \<times> string) list option"

record PackageJson =
  json_name :: string
  json_version :: string
  json_license :: string

record PackageLockJson =
  packages :: "string \<rightharpoonup> Package"

record TpipDependency =
  name :: string
  version :: string
  spdx :: string
  url :: string
  license :: string
  ownKeys :: "member list"

text \<open>\<^verbatim>\<open>const FIXME = '<FIXME>' as const;\<close>\<close>

definition FIXME :: string where
  "FIXME = ''<FIXME>''"

text \<open>What a \<^verbatim>\<open>throw\<close> carries: the \<^verbatim>\<open>Error\<close> of \<^verbatim>\<open>resolveInternal\<close>, or the
  \<^verbatim>\<open>RangeError\<close> of the engine when the recursion exceeds the call stack.\<close>

datatype exception = CannotResolve string | RangeError

text \<open>The value of \<^verbatim>\<open>results[dependency]\<close>: the string stored under an own key, or
  the member that \<^verbatim>\<open>Object.prototype\<close> supplies, which is never a string.\<close>

datatype property = Own string | Inherited

text \<open>
  The console, one constructor for each call in the script:
  \<^item> \<^verbatim>\<open>Error_NotFound name\<close>: \<^verbatim>\<open>console.error(`Package ${name} not found ...`)\<close>;
  \<^item> \<^verbatim>\<open>Warn_NoPackageJson name\<close>:
    \<^verbatim>\<open>console.warn(`No package.json for ${name} to get license from.`)\<close>;
  \<^item> \<^verbatim>\<open>Warn_Conflicting dependency r v\<close>: \<^verbatim>\<open>console.warn(` Conflicting dependency version
    ${dependency}: ${results[dependency]} vs ${dependencyPackage?.version}`)\<close>;
  \<^item> \<^verbatim>\<open>Log_Updating\<close>, \<^verbatim>\<open>Log_In jsonFile\<close>: the two \<^verbatim>\<open>console.log\<close> calls that open \<^verbatim>\<open>main\<close>;
  \<^item> \<^verbatim>\<open>Error_NeedsCompletion name\<close>:
    \<^verbatim>\<open>console.error(` ${dependency.name} needs to be completed!`)\<close>;
  \<^item> \<^verbatim>\<open>Error_Message e\<close>, \<^verbatim>\<open>Error_Object e\<close>: \<^verbatim>\<open>console.error(e.message)\<close> and
    \<^verbatim>\<open>console.error(e)\<close> in the \<^verbatim>\<open>catch\<close>;
  \<^item> \<^verbatim>\<open>Error_MissingDependencies\<close>: \<^verbatim>\<open>console.error(' Missing dependencies:')\<close>;
  \<^item> \<^verbatim>\<open>Error_Missing dependency v\<close>:
    \<^verbatim>\<open>console.error(`  - ${dependency}: ${locked?.version}`)\<close>;
  \<^item> \<^verbatim>\<open>Log_Version name old new\<close>:
    \<^verbatim>\<open>console.log(` ${dependency.name}: ${dependency.version} -> ${locked.version}`)\<close>;
  \<^item> \<^verbatim>\<open>Warn_LicenseChanged\<close>, \<^verbatim>\<open>Warn_License old new\<close>: the two \<^verbatim>\<open>console.warn\<close> calls on a
    licence change;
  \<^item> \<^verbatim>\<open>Error_ManualInput\<close>, \<^verbatim>\<open>Warn_UseTpipUpdate\<close>: the two calls under
    \<^verbatim>\<open>if (result !== 0)\<close>.
\<close>

datatype message =
    Error_NotFound string
  | Warn_NoPackageJson string
  | Warn_Conflicting string property "string option"
  | Log_Updating
  | Log_In string
  | Error_NeedsCompletion string
  | Error_Message exception
  | Error_Object exception
  | Error_MissingDependencies
  | Error_Missing string "string option"
  | Log_Version string string string
  | Warn_LicenseChanged
  | Warn_License string string
  | Error_ManualInput
  | Warn_UseTpipUpdate

subsection \<open>Strings and objects of the language\<close>

text \<open>\<^verbatim>\<open>s.startsWith(p)\<close>\<close>

definition startsWith :: "string \<Rightarrow> string \<Rightarrow> bool" where
  "startsWith s p = (take (length p) s = p)"

text \<open>The names every object literal inherits from \<^verbatim>\<open>Object.prototype\<close>. The operator
  \<^verbatim>\<open>in\<close> follows the prototype chain, so \<^verbatim>\<open>k in results\<close> holds for these names on \<^verbatim>\<open>{}\<close>
  too, and \<^verbatim>\<open>results[k]\<close> is then a function or an object.\<close>

definition objectPrototype :: "string list" where
  "objectPrototype =
     [''constructor'', ''__defineGetter__'', ''__defineSetter__'', ''hasOwnProperty'',
      ''__lookupGetter__'', ''__lookupSetter__'', ''isPrototypeOf'',
      ''propertyIsEnumerable'', ''toString'', ''valueOf'', ''__proto__'',
      ''toLocaleString'']"

text \<open>\<^verbatim>\<open>k in obj\<close> and \<^verbatim>\<open>obj[k]\<close> for an object literal \<^verbatim>\<open>obj\<close>. The second is only read
  where the first holds.\<close>

definition hasProperty :: "string \<Rightarrow> (string \<times> string) list \<Rightarrow> bool" where
  "hasProperty k obj = (k \<in> set (map fst obj) \<or> k \<in> set objectPrototype)"

definition getProperty :: "string \<Rightarrow> (string \<times> string) list \<Rightarrow> property" where
  "getProperty k obj = (case map_of obj k of Some v \<Rightarrow> Own v | None \<Rightarrow> Inherited)"

text \<open>The test \<^verbatim>\<open>results[dependency] !== dependencyPackage?.version\<close>: the right side
  is a string or \<^verbatim>\<open>undefined\<close>.\<close>

definition differs :: "property \<Rightarrow> string option \<Rightarrow> bool" where
  "differs p v = (case p of Own s \<Rightarrow> v \<noteq> Some s | Inherited \<Rightarrow> True)"

subsection \<open>The helpers\<close>

text \<open>
  \<^verbatim>\<open>function getPackage(name: string, lockJson: PackageLockJson) {
    const node_module = name === '' ? name : `node_modules/${name}`;
    if (node_module in lockJson.packages) {
        return lockJson.packages[node_module];
    }
    console.error(`Package ${name} not found ...`);
    return undefined;
}\<close>
  No name that \<^verbatim>\<open>Object.prototype\<close> supplies is empty or starts with \<^verbatim>\<open>node_modules/\<close>,
  so \<^verbatim>\<open>in\<close> is the test for an own key here. The value and the console are two
  functions of the same arguments.
\<close>

definition node_module :: "string \<Rightarrow> string" where
  "node_module nm = (if nm = [] then nm else ''node_modules/'' @ nm)"

definition getPackage :: "string \<Rightarrow> PackageLockJson \<Rightarrow> Package option" where
  "getPackage nm lockJson = packages lockJson (node_module nm)"

definition getPackage_console :: "string \<Rightarrow> PackageLockJson \<Rightarrow> message list" where
  "getPackage_console nm lockJson =
     (case getPackage nm lockJson of Some p \<Rightarrow> [] | None \<Rightarrow> [Error_NotFound nm])"

text \<open>
  \<^verbatim>\<open>function hasFixMe(dependency: TpipDependency) {
    return (dependency.version === FIXME) ||
        (dependency.license === FIXME) ||
        (dependency.spdx === FIXME) ||
        (dependency.url === FIXME);
}\<close>
\<close>

definition hasFixMe :: "TpipDependency \<Rightarrow> bool" where
  "hasFixMe dependency =
     (version dependency = FIXME \<or> license dependency = FIXME \<or>
      spdx dependency = FIXME \<or> url dependency = FIXME)"

text \<open>
  \<^verbatim>\<open>export function getLicense(name: string) {
    const packageJson = `node_modules/${name}/package.json`;
    if (!existsSync(packageJson)) {
        console.warn(`No package.json for ${name} to get license from.`);
        return 'UNKNOWN';
    }
    const json = JSON.parse(readFileSync(packageJson, 'utf-8')) as PackageJson;
    return json.license;
}\<close>
  \<open>files\<close> maps the path of a file that exists to its parsed content.
\<close>

definition packageJson :: "string \<Rightarrow> string" where
  "packageJson nm = ''node_modules/'' @ nm @ ''/package.json''"

definition getLicense :: "(string \<rightharpoonup> PackageJson) \<Rightarrow> string \<Rightarrow> string" where
  "getLicense files nm =
     (case files (packageJson nm) of None \<Rightarrow> ''UNKNOWN'' | Some json \<Rightarrow> json_license json)"

definition getLicense_console :: "(string \<rightharpoonup> PackageJson) \<Rightarrow> string \<Rightarrow> message list" where
  "getLicense_console files nm =
     (case files (packageJson nm) of None \<Rightarrow> [Warn_NoPackageJson nm] | Some json \<Rightarrow> [])"

subsection \<open>The resolver\<close>

text \<open>
  \<^verbatim>\<open>function resolveInternal(lockJson, name: string = '', results?) {
    if (results === undefined) {
        results = {};
    }
    const nodePackage = getPackage(name, lockJson);
    if (nodePackage === undefined) {
        throw new Error(`Cannot resolve transitive dependencies of ${name}`);
    }
    const dependencies = nodePackage.dependencies ?? {};
    for (const dependency of Object.keys(dependencies)) {
        if (dependency.startsWith('@arm-debug')) {
            resolveInternal(lockJson, dependency, results);
        } else if (!dependency.startsWith('@types')) {
            if (dependency in results) {
                const dependencyPackage = getPackage(dependency, lockJson);
                if (results[dependency] !== dependencyPackage?.version) {
                    console.warn(` Conflicting dependency version ...`);
                }
            } else {
                results[dependency] = dependencies[dependency];
            }
        }
    }
    return results;
}\<close>

  \<^verbatim>\<open>resolveInternal\<close> calls itself for every dependency of the internal namespace and
  nothing stops it on a cycle; the engine does, with a \<^verbatim>\<open>RangeError\<close>, when the call
  stack is full. The first argument is the number of frames the stack still takes.
  \<^verbatim>\<open>resolveLoop\<close> is the \<^verbatim>\<open>for\<close> loop over \<^verbatim>\<open>Object.keys(dependencies)\<close>. The accumulator
  and the console are passed along; an exception leaves the console as it is and
  abandons the accumulator.
\<close>

fun resolveInternal ::
    "nat \<Rightarrow> PackageLockJson \<Rightarrow> string \<Rightarrow> (string \<times> string) list \<Rightarrow> message list
      \<Rightarrow> (exception + (string \<times> string) list) \<times> message list"
and resolveLoop ::
    "nat \<Rightarrow> PackageLockJson \<Rightarrow> (string \<times> string) list \<Rightarrow> (string \<times> string) list
      \<Rightarrow> message list \<Rightarrow> (exception + (string \<times> string) list) \<times> message list"
where
  "resolveInternal 0 lockJson nm results con = (Inl RangeError, con)"
| "resolveInternal (Suc depth) lockJson nm results con =
     (case getPackage nm lockJson of
        None \<Rightarrow> (Inl (CannotResolve nm), con @ getPackage_console nm lockJson)
      | Some nodePackage \<Rightarrow>
          resolveLoop depth lockJson
            (case dependencies nodePackage of None \<Rightarrow> [] | Some ds \<Rightarrow> ds) results con)"
| "resolveLoop depth lockJson [] results con = (Inr results, con)"
| "resolveLoop depth lockJson ((dependency, required) # rest) results con =
     (if startsWith dependency ''@arm-debug'' then
        (case resolveInternal depth lockJson dependency results con of
           (Inl e, con') \<Rightarrow> (Inl e, con')
         | (Inr results', con') \<Rightarrow> resolveLoop depth lockJson rest results' con')
      else if \<not> startsWith dependency ''@types'' then
        (if hasProperty dependency results then
           resolveLoop depth lockJson rest results
             (con @ getPackage_console dependency lockJson @
                (if differs (getProperty dependency results)
                      (map_option pkg_version (getPackage dependency lockJson))
                 then [Warn_Conflicting dependency (getProperty dependency results)
                         (map_option pkg_version (getPackage dependency lockJson))]
                 else []))
         else resolveLoop depth lockJson rest (results @ [(dependency, required)]) con)
      else resolveLoop depth lockJson rest results con)"

subsection \<open>\<^verbatim>\<open>JSON.stringify\<close> on the manifest\<close>

text \<open>
  \<^verbatim>\<open>JSON.stringify(tpipJson, undefined, space)\<close> for an array of objects whose members
  are strings: the quoting of a string, then the layout of objects and arrays with the
  gap of \<open>space\<close> blanks (ten at most). An object is written member by member in the
  order of its own keys.
\<close>

definition hexDigit :: "nat \<Rightarrow> char" where
  "hexDigit n = ''0123456789abcdef'' ! n"

definition quoteChar :: "char \<Rightarrow> string" where
  "quoteChar c =
     (if c = CHR 0x08 then [CHR 0x5C, CHR ''b'']
      else if c = CHR 0x09 then [CHR 0x5C, CHR ''t'']
      else if c = CHR 0x0A then [CHR 0x5C, CHR ''n'']
      else if c = CHR 0x0C then [CHR 0x5C, CHR ''f'']
      else if c = CHR 0x0D then [CHR 0x5C, CHR ''r'']
      else if c = CHR 0x22 then [CHR 0x5C, CHR 0x22]
      else if c = CHR 0x5C then [CHR 0x5C, CHR 0x5C]
      else if (of_char c :: nat) < 32 then
        CHR 0x5C # ''u00'' @ [hexDigit (of_char c div 16), hexDigit (of_char c mod 16)]
      else [c])"

definition quoteJSONString :: "string \<Rightarrow> string" where
  "quoteJSONString s = CHR 0x22 # concat (map quoteChar s) @ [CHR 0x22]"

fun join :: "string \<Rightarrow> string list \<Rightarrow> string" where
  "join sep [] = []"
| "join sep [x] = x"
| "join sep (x # y # ys) = x @ sep @ join sep (y # ys)"

definition serializeJSONObject :: "string \<Rightarrow> string \<Rightarrow> (string \<times> string) list \<Rightarrow> string" where
  "serializeJSONObject stepback gap props =
     (if props = [] then ''{}''
      else if gap = [] then
        ''{'' @ join '','' (map (\<lambda>(k, v). quoteJSONString k @ '':'' @ v) props) @ ''}''
      else
        ''{'' @ [CHR 0x0A] @ stepback @ gap @
        join ('','' @ [CHR 0x0A] @ stepback @ gap)
          (map (\<lambda>(k, v). quoteJSONString k @ '': '' @ v) props) @
        [CHR 0x0A] @ stepback @ ''}'')"

definition serializeJSONArray :: "string \<Rightarrow> string \<Rightarrow> string list \<Rightarrow> string" where
  "serializeJSONArray stepback gap elements =
     (if elements = [] then ''[]''
      else if gap = [] then ''['' @ join '','' elements @ '']''
      else
        ''['' @ [CHR 0x0A] @ stepback @ gap @
        join ('','' @ [CHR 0x0A] @ stepback @ gap) elements @
        [CHR 0x0A] @ stepback @ '']'')"

fun key :: "member \<Rightarrow> string" where
  "key M_name = ''name''"
| "key M_version = ''version''"
| "key M_spdx = ''spdx''"
| "key M_url = ''url''"
| "key M_license = ''license''"

fun memberValue :: "member \<Rightarrow> TpipDependency \<Rightarrow> string" where
  "memberValue M_name d = name d"
| "memberValue M_version d = version d"
| "memberValue M_spdx d = spdx d"
| "memberValue M_url d = url d"
| "memberValue M_license d = license d"

definition members :: "TpipDependency \<Rightarrow> (string \<times> string) list" where
  "members d = map (\<lambda>k. (key k, quoteJSONString (memberValue k d))) (ownKeys d)"

definition JSON_stringify :: "TpipDependency list \<Rightarrow> nat \<Rightarrow> string" where
  "JSON_stringify tpipJson space =
     (let gap = replicate (min 10 space) CHR '' ''
      in serializeJSONArray [] gap
           (map (\<lambda>d. serializeJSONObject gap gap (members d)) tpipJson))"

subsection \<open>\<^verbatim>\<open>main\<close>\<close>

text \<open>
  \<^verbatim>\<open>for (const dependency of tpipJson) {
    if (hasFixMe(dependency)) {
        console.error(` ${dependency.name} needs to be completed!`);
        result = 1;
    }
}\<close>
\<close>

fun checkLoop :: "TpipDependency list \<Rightarrow> int \<Rightarrow> message list \<Rightarrow> int \<times> message list" where
  "checkLoop [] result con = (result, con)"
| "checkLoop (dependency # rest) result con =
     (if hasFixMe dependency
      then checkLoop rest 1 (con @ [Error_NeedsCompletion (name dependency)])
      else checkLoop rest result con)"

text \<open>
  \<^verbatim>\<open>for (const dependency of missing) {
    const locked = getPackage(dependency, lockJson);
    console.error(`  - ${dependency}: ${locked?.version}`);
    tpipJson.push({
        name: dependency,
        version: locked?.version ?? FIXME,
        spdx: getLicense(dependency),
        url: FIXME,
        license: FIXME
    });
}\<close>
\<close>

fun pushLoop ::
    "(string \<rightharpoonup> PackageJson) \<Rightarrow> PackageLockJson \<Rightarrow> string list \<Rightarrow> TpipDependency list
      \<Rightarrow> message list \<Rightarrow> TpipDependency list \<times> message list" where
  "pushLoop files lockJson [] tpipJson con = (tpipJson, con)"
| "pushLoop files lockJson (dependency # rest) tpipJson con =
     pushLoop files lockJson rest
       (tpipJson @
          [\<lparr>name = dependency,
            version = (case getPackage dependency lockJson of
                         None \<Rightarrow> FIXME | Some locked \<Rightarrow> pkg_version locked),
            spdx = getLicense files dependency,
            url = FIXME,
            license = FIXME,
            ownKeys = [M_name, M_version, M_spdx, M_url, M_license]\<rparr>])
       (con @ getPackage_console dependency lockJson @
          [Error_Missing dependency (map_option pkg_version (getPackage dependency lockJson))] @
          getLicense_console files dependency)"

text \<open>
  \<^verbatim>\<open>for (const dependency of tpipJson) {
    const locked = getPackage(dependency.name, lockJson);
    if ((locked !== undefined) && (dependency.version !== locked.version)) {
        console.log(` ${dependency.name}: ${dependency.version} -> ${locked.version}`);
        dependency.version = locked.version;
        const actLicense = getLicense(dependency.name);
        if (dependency.spdx !== actLicense) {
            console.warn(' License may have changed!');
            console.warn(`   ${dependency.spdx} -> ${actLicense} `);
            dependency.spdx = actLicense;
            result = 1;
        }
    }
}\<close>
  The loop walks the manifest, pushed entries included, and changes the entries in
  place. \<open>visited\<close> holds the entries already visited.
\<close>

fun updateLoop ::
    "(string \<rightharpoonup> PackageJson) \<Rightarrow> PackageLockJson \<Rightarrow> TpipDependency list
      \<Rightarrow> TpipDependency list \<Rightarrow> int \<Rightarrow> message list
      \<Rightarrow> TpipDependency list \<times> int \<times> message list" where
  "updateLoop files lockJson [] visited result con = (visited, result, con)"
| "updateLoop files lockJson (dependency # rest) visited result con =
     (case getPackage (name dependency) lockJson of
        None \<Rightarrow>
          updateLoop files lockJson rest (visited @ [dependency]) result
            (con @ getPackage_console (name dependency) lockJson)
      | Some locked \<Rightarrow>
          if version dependency \<noteq> pkg_version locked then
            (let con1 = con @ [Log_Version (name dependency) (version dependency)
                                 (pkg_version locked)];
                 dependency1 = dependency\<lparr>version := pkg_version locked\<rparr>;
                 actLicense = getLicense files (name dependency1);
                 con2 = con1 @ getLicense_console files (name dependency1)
             in if spdx dependency1 \<noteq> actLicense then
                  updateLoop files lockJson rest
                    (visited @ [dependency1\<lparr>spdx := actLicense\<rparr>]) 1
                    (con2 @ [Warn_LicenseChanged,
                             Warn_License (spdx dependency1) actLicense])
                else updateLoop files lockJson rest (visited @ [dependency1]) result con2)
          else updateLoop files lockJson rest (visited @ [dependency]) result con)"

text \<open>What a run leaves behind: the value \<^verbatim>\<open>main\<close> returns (the exit code of the
  process, through \<^verbatim>\<open>process.exit(retval)\<close>), the manifest in memory at the end, the calls
  of \<^verbatim>\<open>writeFileSync\<close> (path and data) and the console.\<close>

record outcome =
  retval :: int
  tpip :: "TpipDependency list"
  written :: "(string \<times> string) list"
  console :: "message list"

text \<open>
  \<^verbatim>\<open>function main(jsonFile: string) {
    let result = 0;
    console.log('Updating TPIP information ...');
    console.log(` in ${jsonFile}`);
    const tpipJson: TpipDependency[] = JSON.parse(readFileSync(jsonFile, 'utf-8'));
    const lockJson: PackageLockJson = JSON.parse(readFileSync('package-lock.json', 'utf-8'));
    (first loop)
    let lockedDepencencies: { [name: string]: string } = {};
    try {
        lockedDepencencies = resolveInternal(lockJson);
    } catch (e) {
        if (e instanceof Error) {
            console.error(e.message);
        }
        console.error(e);
        result = 2;
    }
    const missing = Object.keys(lockedDepencencies)
        .filter(d => !tpipJson.some(t => t.name === d));
    if (missing.length > 0) {
        result = 2;
        console.error(' Missing dependencies:');
        (loop over missing)
    }
    (last loop)
    if (result !== 0) {
        console.error('New or changed dependencies detected, manual input required.');
        console.warn('Use npm run tpip:update locally and add missing license information');
    }
    writeFileSync(`${jsonFile}`, JSON.stringify(tpipJson, undefined, 4));
    return result;
}\<close>

  \<open>tpipJson\<close> is the parsed content of \<open>jsonFile\<close>, \<open>lockJson\<close> that of
  \<^verbatim>\<open>package-lock.json\<close>, \<open>files\<close> the parsed \<^verbatim>\<open>package.json\<close> files under
  \<^verbatim>\<open>node_modules\<close> by path, \<open>depth\<close> the call stack left for the resolver.
\<close>

definition main ::
    "nat \<Rightarrow> (string \<rightharpoonup> PackageJson) \<Rightarrow> PackageLockJson \<Rightarrow> string \<Rightarrow> TpipDependency list
      \<Rightarrow> outcome" where
  "main depth files lockJson jsonFile tpipJson =
     (let con0 = [Log_Updating, Log_In jsonFile];
          (result1, con1) = checkLoop tpipJson 0 con0;
          (lockedDepencencies, result2, con2) =
             (case resolveInternal depth lockJson [] [] con1 of
                (Inr results, con) \<Rightarrow> (results, result1, con)
              | (Inl e, con) \<Rightarrow> ([], 2, con @ [Error_Message e, Error_Object e]));
          missing = filter (\<lambda>d. \<not> list_ex (\<lambda>t. name t = d) tpipJson)
                      (map fst lockedDepencencies);
          (tpipJson3, result3, con3) =
             (if length missing > 0 then
                (let (pushed, con) =
                       pushLoop files lockJson missing tpipJson
                         (con2 @ [Error_MissingDependencies])
                 in (pushed, 2, con))
              else (tpipJson, result2, con2));
          (tpipJson4, result4, con4) = updateLoop files lockJson tpipJson3 [] result3 con3;
          con5 = (if result4 \<noteq> 0 then con4 @ [Error_ManualInput, Warn_UseTpipUpdate]
                  else con4)
      in \<lparr>retval = result4, tpip = tpipJson4,
          written = [(jsonFile, JSON_stringify tpipJson4 4)], console = con5\<rparr>)"

subsection \<open>Notions used in the statements\<close>

text \<open>What the last loop does to one entry, and whether it sets the result to 1 for
  it.\<close>

definition refresh :: "(string \<rightharpoonup> PackageJson) \<Rightarrow> PackageLockJson \<Rightarrow> TpipDependency \<Rightarrow> TpipDependency" where
  "refresh files lockJson e =
     (case getPackage (name e) lockJson of
        None \<Rightarrow> e
      | Some locked \<Rightarrow>
          if version e \<noteq> pkg_version locked
          then e\<lparr>version := pkg_version locked, spdx := getLicense files (name e)\<rparr>
          else e)"

definition licenseChanges :: "(string \<rightharpoonup> PackageJson) \<Rightarrow> PackageLockJson \<Rightarrow> TpipDependency \<Rightarrow> bool" where
  "licenseChanges files lockJson e =
     (case getPackage (name e) lockJson of
        None \<Rightarrow> False
      | Some locked \<Rightarrow> version e \<noteq> pkg_version locked \<and> spdx e \<noteq> getLicense files (name e))"

text \<open>The entry that the loop over \<^verbatim>\<open>missing\<close> pushes for a name.\<close>

definition synthesized :: "(string \<rightharpoonup> PackageJson) \<Rightarrow> PackageLockJson \<Rightarrow> string \<Rightarrow> TpipDependency" where
  "synthesized files lockJson d =
     \<lparr>name = d,
      version = (case getPackage d lockJson of None \<Rightarrow> FIXME | Some locked \<Rightarrow> pkg_version locked),
      spdx = getLicense files d, url = FIXME, license = FIXME,
      ownKeys = [M_name, M_version, M_spdx, M_url, M_license]\<rparr>"

text \<open>What the two loops print for one element.\<close>

definition pushMessages :: "(string \<rightharpoonup> PackageJson) \<Rightarrow> PackageLockJson \<Rightarrow> string \<Rightarrow> message list" where
  "pushMessages files lockJson d =
     getPackage_console d lockJson @
     [Error_Missing d (map_option pkg_version (getPackage d lockJson))] @
     getLicense_console files d"

definition updateMessages :: "(string \<rightharpoonup> PackageJson) \<Rightarrow> PackageLockJson \<Rightarrow> TpipDependency \<Rightarrow> message list" where
  "updateMessages files lockJson e =
     (case getPackage (name e) lockJson of
        None \<Rightarrow> [Error_NotFound (name e)]
      | Some locked \<Rightarrow>
          if version e \<noteq> pkg_version locked then
            Log_Version (name e) (version e) (pkg_version locked) #
            getLicense_console files (name e) @
            (if spdx e \<noteq> getLicense files (name e)
             then [Warn_LicenseChanged, Warn_License (spdx e) (getLicense files (name e))]
             else [])
          else [])"

text \<open>An accumulator that continues another one: the old pairs come first, unchanged,
  and the keys that follow are outside both namespaces.\<close>

definition extends :: "(string \<times> string) list \<Rightarrow> (string \<times> string) list \<Rightarrow> bool" where
  "extends results results' =
     (\<exists>added. results' = results @ added \<and>
        (\<forall>k \<in> set (map fst added).
           \<not> startsWith k ''@arm-debug'' \<and> \<not> startsWith k ''@types''))"

text \<open>A package that is absent from the lock graph, or from which an absent one is
  reached in at most \<open>n\<close> steps along dependencies of the internal namespace: the
  packages on which \<^verbatim>\<open>resolveInternal\<close> is called, one inside the other, until
  \<^verbatim>\<open>getPackage\<close> finds nothing.\<close>

fun reachesAbsent :: "nat \<Rightarrow> PackageLockJson \<Rightarrow> string \<Rightarrow> bool" where
  "reachesAbsent 0 lockJson nm = (getPackage nm lockJson = None)"
| "reachesAbsent (Suc n) lockJson nm =
     (case getPackage nm lockJson of
        None \<Rightarrow> True
      | Some nodePackage \<Rightarrow>
          list_ex (\<lambda>(dependency, required).
                     startsWith dependency ''@arm-debug'' \<and> reachesAbsent n lockJson dependency)
            (case dependencies nodePackage of None \<Rightarrow> [] | Some ds \<Rightarrow> ds))"

text \<open>The layout the specification names, written out: an array with one object per
  entry, each object on lines of its own, indented by four blanks, and each of its
  members on a line of its own, indented by eight, in the order of the object's keys;
  commas end all lines of a group but the last.\<close>

definition member_indented8 :: "TpipDependency \<Rightarrow> member \<Rightarrow> string" where
  "member_indented8 d k =
     ''        '' @ quoteJSONString (key k) @ '': '' @ quoteJSONString (memberValue k d)"

definition entry_indented4 :: "TpipDependency \<Rightarrow> string" where
  "entry_indented4 d =
     (if ownKeys d = [] then ''    {}''
      else ''    {'' @ [CHR 0x0A] @
           join ('','' @ [CHR 0x0A]) (map (member_indented8 d) (ownKeys d)) @
           [CHR 0x0A] @ ''    }'')"

definition indented4 :: "TpipDependency list \<Rightarrow> string" where
  "indented4 tpipJson =
     (if tpipJson = [] then ''[]''
      else ''['' @ [CHR 0x0A] @ join ('','' @ [CHR 0x0A]) (map entry_indented4 tpipJson) @
           [CHR 0x0A] @ '']'')"
















subsection \<open>Sample inputs\<close>

text \<open>Lock graphs: a root that depends on an internal package, on \<^verbatim>\<open>yargs\<close> and
  on a type-only package, the internal package depending on \<^verbatim>\<open>yargs\<close> with another
  requirement and on \<^verbatim>\<open>semver\<close> (\<open>lock_app\<close>); the same with the requirement of the
  internal package equal to the locked version (\<open>lock_exact\<close>); a root whose dependency
  \<^verbatim>\<open>yargs\<close> is not in the lock graph (\<open>lock_gap\<close>); an internal package whose internal
  dependency is not in the lock graph (\<open>lock_internal_gap\<close>); a root that depends on the
  package \<^verbatim>\<open>constructor\<close> (\<open>lock_constructor\<close>).\<close>

definition lock_app :: PackageLockJson where
  "lock_app = \<lparr>packages =
     [[] \<mapsto> \<lparr>pkg_version = ''1.1.0'',
              dependencies = Some [(''@arm-debug/core'', ''^1.0.0''), (''yargs'', ''^18.0.0''),
                                   (''@types/node'', ''^20.11.30'')]\<rparr>,
      ''node_modules/@arm-debug/core'' \<mapsto>
         \<lparr>pkg_version = ''1.0.2'',
          dependencies = Some [(''yargs'', ''^17.7.2''), (''semver'', ''^7.6.0'')]\<rparr>,
      ''node_modules/yargs'' \<mapsto> \<lparr>pkg_version = ''18.0.0'', dependencies = None\<rparr>,
      ''node_modules/semver'' \<mapsto> \<lparr>pkg_version = ''7.6.3'', dependencies = None\<rparr>]\<rparr>"

definition lock_exact :: PackageLockJson where
  "lock_exact = \<lparr>packages =
     [[] \<mapsto> \<lparr>pkg_version = ''1.1.0'',
              dependencies = Some [(''@arm-debug/core'', ''^1.0.0''), (''yargs'', ''^18.0.0'')]\<rparr>,
      ''node_modules/@arm-debug/core'' \<mapsto>
         \<lparr>pkg_version = ''1.0.2'', dependencies = Some [(''yargs'', ''18.0.0'')]\<rparr>,
      ''node_modules/yargs'' \<mapsto> \<lparr>pkg_version = ''18.0.0'', dependencies = None\<rparr>]\<rparr>"

definition lock_gap :: PackageLockJson where
  "lock_gap = \<lparr>packages =
     [[] \<mapsto> \<lparr>pkg_version = ''1.1.0'', dependencies = Some [(''yargs'', ''^18.0.0'')]\<rparr>]\<rparr>"

definition lock_internal_gap :: PackageLockJson where
  "lock_internal_gap = \<lparr>packages =
     [[] \<mapsto> \<lparr>pkg_version = ''1.1.0'',
              dependencies = Some [(''yargs'', ''^18.0.0''), (''@arm-debug/core'', ''^1.0.0'')]\<rparr>,
      ''node_modules/@arm-debug/core'' \<mapsto>
         \<lparr>pkg_version = ''1.0.2'', dependencies = Some [(''@arm-debug/util'', ''^2.0.0'')]\<rparr>,
      ''node_modules/yargs'' \<mapsto> \<lparr>pkg_version = ''18.0.0'', dependencies = None\<rparr>]\<rparr>"

definition lock_constructor :: PackageLockJson where
  "lock_constructor = \<lparr>packages =
     [[] \<mapsto> \<lparr>pkg_version = ''1.1.0'',
              dependencies = Some [(''constructor'', ''^1.0.0''), (''yargs'', ''^18.0.0'')]\<rparr>,
      ''node_modules/constructor'' \<mapsto> \<lparr>pkg_version = ''1.0.0'', dependencies = None\<rparr>,
      ''node_modules/yargs'' \<mapsto> \<lparr>pkg_version = ''18.0.0'', dependencies = None\<rparr>]\<rparr>"

text \<open>The installed packages: \<^verbatim>\<open>yargs\<close> declares MIT, \<^verbatim>\<open>semver\<close> declares ISC.\<close>

definition files_app :: "string \<rightharpoonup> PackageJson" where
  "files_app =
     [''node_modules/yargs/package.json'' \<mapsto>
        \<lparr>json_name = ''yargs'', json_version = ''18.0.0'', json_license = ''MIT''\<rparr>,
      ''node_modules/semver/package.json'' \<mapsto>
        \<lparr>json_name = ''semver'', json_version = ''7.6.3'', json_license = ''ISC''\<rparr>]"

text \<open>Manifest entries: \<^verbatim>\<open>yargs\<close> at the locked version with its URL left open,
  complete, and at an older version under another licence; \<^verbatim>\<open>semver\<close> as the script
  pushes it, and at the locked version under another licence than the installed package
  declares; a package the lock graph does not have. The file lists the members of
  \<open>yargs_old\<close> and of \<open>leftpad\<close> in another order than the type declares them.\<close>

definition yargs_open :: TpipDependency where
  "yargs_open = \<lparr>name = ''yargs'', version = ''18.0.0'', spdx = ''MIT'',
                  url = ''<FIXME>'', license = ''MIT License'',
     ownKeys = [M_name, M_version, M_spdx, M_url, M_license]\<rparr>"

definition yargs_done :: TpipDependency where
  "yargs_done = \<lparr>name = ''yargs'', version = ''18.0.0'', spdx = ''MIT'',
                  url = ''https://github.com/yargs/yargs'', license = ''MIT License'',
     ownKeys = [M_name, M_version, M_spdx, M_url, M_license]\<rparr>"

definition yargs_old :: TpipDependency where
  "yargs_old = \<lparr>name = ''yargs'', version = ''17.7.2'', spdx = ''Apache-2.0'',
                 url = ''https://github.com/yargs/yargs'', license = ''Apache License 2.0'',
     ownKeys = [M_name, M_url, M_license, M_spdx, M_version]\<rparr>"

definition semver_pushed :: TpipDependency where
  "semver_pushed = \<lparr>name = ''semver'', version = ''7.6.3'', spdx = ''ISC'',
                     url = ''<FIXME>'', license = ''<FIXME>'',
     ownKeys = [M_name, M_version, M_spdx, M_url, M_license]\<rparr>"

definition semver_stale :: TpipDependency where
  "semver_stale = \<lparr>name = ''semver'', version = ''7.6.3'', spdx = ''BSD-3-Clause'',
                    url = ''https://github.com/npm/node-semver'', license = ''BSD License'',
     ownKeys = [M_name, M_version, M_spdx, M_url, M_license]\<rparr>"

definition leftpad :: TpipDependency where
  "leftpad = \<lparr>name = ''left-pad'', version = ''1.3.0'', spdx = ''WTFPL'',
               url = ''https://github.com/left-pad/left-pad'', license = ''WTFPL'',
     ownKeys = [M_version, M_name, M_license, M_url, M_spdx]\<rparr>"

section \<open>Properties\<close>

subsection \<open>The loops of \<^verbatim>\<open>main\<close> in closed form\<close>

lemma checkLoop_result:
  "fst (checkLoop tpipJson result con) = (if list_ex hasFixMe tpipJson then 1 else result)"
  by (induction tpipJson arbitrary: result con) auto

lemma checkLoop_console:
  "snd (checkLoop tpipJson result con) =
     con @ map (\<lambda>d. Error_NeedsCompletion (name d)) (filter hasFixMe tpipJson)"
  by (induction tpipJson arbitrary: result con) auto

lemma pushLoop_entries:
  "fst (pushLoop files lockJson missing tpipJson con) =
     tpipJson @ map (synthesized files lockJson) missing"
  by (induction missing arbitrary: tpipJson con) (auto simp: synthesized_def)

lemma pushLoop_console:
  "snd (pushLoop files lockJson missing tpipJson con) =
     con @ concat (map (pushMessages files lockJson) missing)"
  by (induction missing arbitrary: tpipJson con) (auto simp: pushMessages_def)

lemma updateLoop_entries:
  "fst (updateLoop files lockJson todo visited result con) =
     visited @ map (refresh files lockJson) todo"
  by (induction todo arbitrary: visited result con)
     (auto simp: refresh_def Let_def split: option.splits)

lemma updateLoop_result:
  "fst (snd (updateLoop files lockJson todo visited result con)) =
     (if list_ex (licenseChanges files lockJson) todo then 1 else result)"
  by (induction todo arbitrary: visited result con)
     (auto simp: licenseChanges_def Let_def split: option.splits)

lemma updateLoop_console:
  "snd (snd (updateLoop files lockJson todo visited result con)) =
     con @ concat (map (updateMessages files lockJson) todo)"
  by (induction todo arbitrary: visited result con)
     (auto simp: updateMessages_def getPackage_console_def Let_def split: option.splits)

lemma updateLoop_eq:
  "updateLoop files lockJson todo visited result con =
     (visited @ map (refresh files lockJson) todo,
      if list_ex (licenseChanges files lockJson) todo then 1 else result,
      con @ concat (map (updateMessages files lockJson) todo))"
  by (simp add: prod_eq_iff updateLoop_entries updateLoop_result updateLoop_console)

subsection \<open>The resolver\<close>

text \<open>What the resolver returns does not depend on what the console held before.\<close>

lemma resolve_results_aux:
  fixes con :: "message list"
  shows "\<forall>c. fst (resolveInternal depth lockJson nm results con) =
             fst (resolveInternal depth lockJson nm results c)"
  and "\<forall>c. fst (resolveLoop depth lockJson ds results con) =
           fst (resolveLoop depth lockJson ds results c)"
proof (induction depth lockJson nm results con and depth lockJson ds results con
       rule: resolveInternal_resolveLoop.induct)
  case (1 lockJson nm results con)
  show ?case by simp
next
  case (2 depth lockJson nm results con)
  show ?case
  proof (cases "getPackage nm lockJson")
    case None
    then show ?thesis by simp
  next
    case (Some p)
    show ?thesis
    proof
      fix c
      show "fst (resolveInternal (Suc depth) lockJson nm results con) =
            fst (resolveInternal (Suc depth) lockJson nm results c)"
        using 2 [OF Some, rule_format, of c] Some by simp
    qed
  qed
next
  case (3 depth lockJson results con)
  show ?case by simp
next
  case (4 depth lockJson dependency required rest results con)
  show ?case
  proof
    fix c
    show "fst (resolveLoop depth lockJson ((dependency, required) # rest) results con) =
          fst (resolveLoop depth lockJson ((dependency, required) # rest) results c)"
    proof (cases "startsWith dependency ''@arm-debug''")
      case internal: True
      obtain x y where xy: "resolveInternal depth lockJson dependency results con = (x, y)"
        by (cases "resolveInternal depth lockJson dependency results con")
      obtain x' y' where xy': "resolveInternal depth lockJson dependency results c = (x', y')"
        by (cases "resolveInternal depth lockJson dependency results c")
      have same: "x' = x"
        using 4(1) [OF internal, rule_format, of c] xy xy' by simp
      show ?thesis
      proof (cases x)
        case (Inl e)
        with internal xy xy' same show ?thesis by simp
      next
        case (Inr results')
        have "fst (resolveLoop depth lockJson rest results' y) =
              fst (resolveLoop depth lockJson rest results' y')"
          using 4(2) [OF internal xy [symmetric] Inr, rule_format, of y'] .
        with internal xy xy' same Inr show ?thesis by simp
      qed
    next
      case external: False
      show ?thesis
      proof (cases "startsWith dependency ''@types''")
        case True
        with external 4(5) [rule_format, of c] show ?thesis by simp
      next
        case types: False
        show ?thesis
        proof (cases "hasProperty dependency results")
          case True
          let ?w = "getPackage_console dependency lockJson @
                (if differs (getProperty dependency results)
                      (map_option pkg_version (getPackage dependency lockJson))
                 then [Warn_Conflicting dependency (getProperty dependency results)
                         (map_option pkg_version (getPackage dependency lockJson))]
                 else [])"
          have "fst (resolveLoop depth lockJson rest results (con @ ?w)) =
                fst (resolveLoop depth lockJson rest results (c @ ?w))"
            using 4(3) [OF external _ True, rule_format, of "c @ ?w"] types by simp
          then show ?thesis
            using external types True by simp
        next
          case False
          show ?thesis
            using external types False 4(4) [OF external _ False, rule_format, of c]
            by simp
        qed
      qed
    qed
  qed
qed

lemma resolveInternal_results:
  "fst (resolveInternal depth lockJson nm results con) =
   fst (resolveInternal depth lockJson nm results [])"
  using resolve_results_aux(1) [of depth lockJson nm results con] by simp

text \<open>A successful resolution only appends to the accumulator, and what it appends
  is outside both namespaces. A failure names a package that is absent from the lock
  graph and that is the root or in the internal namespace.\<close>

lemma extends_refl: "extends results results"
  by (simp add: extends_def)

lemma extends_trans: "extends a b \<Longrightarrow> extends b c \<Longrightarrow> extends a c"
  by (auto simp: extends_def)

lemma extends_step:
  "\<not> startsWith k ''@arm-debug'' \<Longrightarrow> \<not> startsWith k ''@types'' \<Longrightarrow>
   extends results (results @ [(k, v)])"
  by (simp add: extends_def)

lemma resolve_extends_aux:
  fixes con :: "message list"
  shows "\<forall>r. fst (resolveInternal depth lockJson nm results con) = Inr r \<longrightarrow> extends results r"
  and "\<forall>r. fst (resolveLoop depth lockJson ds results con) = Inr r \<longrightarrow> extends results r"
proof (induction depth lockJson nm results con and depth lockJson ds results con
       rule: resolveInternal_resolveLoop.induct)
  case (1 lockJson nm results con)
  show ?case by simp
next
  case (2 depth lockJson nm results con)
  show ?case
  proof (intro allI impI)
    fix r
    assume run: "fst (resolveInternal (Suc depth) lockJson nm results con) = Inr r"
    then obtain p where p: "getPackage nm lockJson = Some p"
      by (cases "getPackage nm lockJson") simp_all
    have "fst (resolveLoop depth lockJson
                 (case dependencies p of None \<Rightarrow> [] | Some ds \<Rightarrow> ds) results con) = Inr r"
      using run p by simp
    with 2 [OF p] show "extends results r" by blast
  qed
next
  case (3 depth lockJson results con)
  show ?case by (simp add: extends_refl)
next
  case (4 depth lockJson dependency required rest results con)
  show ?case
  proof (intro allI impI)
    fix r
    assume run: "fst (resolveLoop depth lockJson ((dependency, required) # rest) results con) = Inr r"
    show "extends results r"
    proof (cases "startsWith dependency ''@arm-debug''")
      case internal: True
      obtain x y where xy: "resolveInternal depth lockJson dependency results con = (x, y)"
        by (cases "resolveInternal depth lockJson dependency results con")
      show ?thesis
      proof (cases x)
        case (Inl e)
        with internal xy run show ?thesis by simp
      next
        case (Inr results')
        have "fst (resolveInternal depth lockJson dependency results con) = Inr results'"
          using xy Inr by simp
        with 4(1) [OF internal] have a: "extends results results'" by blast
        have "fst (resolveLoop depth lockJson rest results' y) = Inr r"
          using internal xy Inr run by simp
        with 4(2) [OF internal xy [symmetric] Inr] have b: "extends results' r" by blast
        from a b show ?thesis by (rule extends_trans)
      qed
    next
      case external: False
      show ?thesis
      proof (cases "startsWith dependency ''@types''")
        case True
        have "fst (resolveLoop depth lockJson rest results con) = Inr r"
          using external True run by simp
        with 4(5) [OF external] True show ?thesis by blast
      next
        case types: False
        show ?thesis
        proof (cases "hasProperty dependency results")
          case True
          let ?w = "getPackage_console dependency lockJson @
                (if differs (getProperty dependency results)
                      (map_option pkg_version (getPackage dependency lockJson))
                 then [Warn_Conflicting dependency (getProperty dependency results)
                         (map_option pkg_version (getPackage dependency lockJson))]
                 else [])"
          have "fst (resolveLoop depth lockJson rest results (con @ ?w)) = Inr r"
            using external types True run by simp
          with 4(3) [OF external _ True] types show ?thesis by blast
        next
          case False
          have "fst (resolveLoop depth lockJson rest (results @ [(dependency, required)]) con) = Inr r"
            using external types False run by simp
          with 4(4) [OF external _ False] types
          have "extends (results @ [(dependency, required)]) r" by blast
          with extends_step [OF external types] show ?thesis
            by (rule extends_trans)
        qed
      qed
    qed
  qed
qed

lemma resolveInternal_extends:
  "fst (resolveInternal depth lockJson nm results con) = Inr r \<Longrightarrow> extends results r"
  using resolve_extends_aux(1) by blast

lemma resolve_cannot_aux:
  fixes con :: "message list"
  shows "\<forall>k. fst (resolveInternal depth lockJson nm results con) = Inl (CannotResolve k) \<longrightarrow>
           getPackage k lockJson = None \<and> (k = nm \<or> startsWith k ''@arm-debug'')"
  and "\<forall>k. fst (resolveLoop depth lockJson ds results con) = Inl (CannotResolve k) \<longrightarrow>
           getPackage k lockJson = None \<and> startsWith k ''@arm-debug''"
proof (induction depth lockJson nm results con and depth lockJson ds results con
       rule: resolveInternal_resolveLoop.induct)
  case (1 lockJson nm results con)
  show ?case by simp
next
  case (2 depth lockJson nm results con)
  show ?case
  proof (intro allI impI)
    fix k
    assume run: "fst (resolveInternal (Suc depth) lockJson nm results con) = Inl (CannotResolve k)"
    show "getPackage k lockJson = None \<and> (k = nm \<or> startsWith k ''@arm-debug'')"
    proof (cases "getPackage nm lockJson")
      case None
      with run show ?thesis by simp
    next
      case (Some p)
      have "fst (resolveLoop depth lockJson
                   (case dependencies p of None \<Rightarrow> [] | Some ds \<Rightarrow> ds) results con) =
            Inl (CannotResolve k)"
        using run Some by simp
      with 2 [OF Some] show ?thesis by blast
    qed
  qed
next
  case (3 depth lockJson results con)
  show ?case by simp
next
  case (4 depth lockJson dependency required rest results con)
  show ?case
  proof (intro allI impI)
    fix k
    assume run: "fst (resolveLoop depth lockJson ((dependency, required) # rest) results con) =
                 Inl (CannotResolve k)"
    show "getPackage k lockJson = None \<and> startsWith k ''@arm-debug''"
    proof (cases "startsWith dependency ''@arm-debug''")
      case internal: True
      obtain x y where xy: "resolveInternal depth lockJson dependency results con = (x, y)"
        by (cases "resolveInternal depth lockJson dependency results con")
      show ?thesis
      proof (cases x)
        case (Inl e)
        then have "fst (resolveInternal depth lockJson dependency results con) =
                   Inl (CannotResolve k)"
          using internal xy run by simp
        with 4(1) [OF internal]
        have "getPackage k lockJson = None \<and>
              (k = dependency \<or> startsWith k ''@arm-debug'')" by blast
        with internal show ?thesis by blast
      next
        case (Inr results')
        have "fst (resolveLoop depth lockJson rest results' y) = Inl (CannotResolve k)"
          using internal xy Inr run by simp
        with 4(2) [OF internal xy [symmetric] Inr] show ?thesis by blast
      qed
    next
      case external: False
      show ?thesis
      proof (cases "startsWith dependency ''@types''")
        case True
        have "fst (resolveLoop depth lockJson rest results con) = Inl (CannotResolve k)"
          using external True run by simp
        with 4(5) [OF external] True show ?thesis by blast
      next
        case types: False
        show ?thesis
        proof (cases "hasProperty dependency results")
          case True
          let ?w = "getPackage_console dependency lockJson @
                (if differs (getProperty dependency results)
                      (map_option pkg_version (getPackage dependency lockJson))
                 then [Warn_Conflicting dependency (getProperty dependency results)
                         (map_option pkg_version (getPackage dependency lockJson))]
                 else [])"
          have "fst (resolveLoop depth lockJson rest results (con @ ?w)) =
                Inl (CannotResolve k)"
            using external types True run by simp
          with 4(3) [OF external _ True] types show ?thesis by blast
        next
          case False
          have "fst (resolveLoop depth lockJson rest (results @ [(dependency, required)]) con) =
                Inl (CannotResolve k)"
            using external types False run by simp
          with 4(4) [OF external _ False] types show ?thesis by blast
        qed
      qed
    qed
  qed
qed

lemma resolveInternal_cannot:
  "fst (resolveInternal depth lockJson nm results con) = Inl (CannotResolve k) \<Longrightarrow>
   getPackage k lockJson = None \<and> (k = nm \<or> startsWith k ''@arm-debug'')"
  using resolve_cannot_aux(1) by blast

text \<open>The console only grows.\<close>

lemma resolve_console_aux:
  fixes con :: "message list"
  shows "set con \<subseteq> set (snd (resolveInternal depth lockJson nm results con))"
  and "set con \<subseteq> set (snd (resolveLoop depth lockJson ds results con))"
proof (induction depth lockJson nm results con and depth lockJson ds results con
       rule: resolveInternal_resolveLoop.induct)
  case (1 lockJson nm results con)
  show ?case by simp
next
  case (2 depth lockJson nm results con)
  show ?case
  proof (cases "getPackage nm lockJson")
    case None
    then show ?thesis by simp
  next
    case (Some p)
    with 2 [OF Some] show ?thesis by simp
  qed
next
  case (3 depth lockJson results con)
  show ?case by simp
next
  case (4 depth lockJson dependency required rest results con)
  show ?case
  proof (cases "startsWith dependency ''@arm-debug''")
    case internal: True
    obtain x y where xy: "resolveInternal depth lockJson dependency results con = (x, y)"
      by (cases "resolveInternal depth lockJson dependency results con")
    have a: "set con \<subseteq> set y"
      using 4(1) [OF internal] xy by simp
    show ?thesis
    proof (cases x)
      case (Inl e)
      with internal xy a show ?thesis by simp
    next
      case (Inr results')
      have "set y \<subseteq> set (snd (resolveLoop depth lockJson rest results' y))"
        using 4(2) [OF internal xy [symmetric] Inr] .
      with a have "set con \<subseteq> set (snd (resolveLoop depth lockJson rest results' y))"
        by blast
      with internal xy Inr show ?thesis by simp
    qed
  next
    case external: False
    show ?thesis
    proof (cases "startsWith dependency ''@types''")
      case True
      with external 4(5) show ?thesis by simp
    next
      case types: False
      show ?thesis
      proof (cases "hasProperty dependency results")
        case True
        let ?w = "getPackage_console dependency lockJson @
                (if differs (getProperty dependency results)
                      (map_option pkg_version (getPackage dependency lockJson))
                 then [Warn_Conflicting dependency (getProperty dependency results)
                         (map_option pkg_version (getPackage dependency lockJson))]
                 else [])"
        have "set (con @ ?w) \<subseteq> set (snd (resolveLoop depth lockJson rest results (con @ ?w)))"
          using 4(3) [OF external _ True] types by simp
        then have "set con \<subseteq> set (snd (resolveLoop depth lockJson rest results (con @ ?w)))"
          by simp
        with external types True show ?thesis by simp
      next
        case False
        with external types 4(4) show ?thesis by simp
      qed
    qed
  qed
qed

subsection \<open>\<^verbatim>\<open>main\<close> in closed form\<close>

lemma checkLoop_eq:
  "checkLoop tpipJson result con =
     (if list_ex hasFixMe tpipJson then 1 else result,
      con @ map (\<lambda>d. Error_NeedsCompletion (name d)) (filter hasFixMe tpipJson))"
  by (simp add: prod_eq_iff checkLoop_result checkLoop_console)

lemma pushLoop_eq:
  "pushLoop files lockJson missing tpipJson con =
     (tpipJson @ map (synthesized files lockJson) missing,
      con @ concat (map (pushMessages files lockJson) missing))"
  by (simp add: prod_eq_iff pushLoop_entries pushLoop_console)

lemma refresh_synthesized:
  "refresh files lockJson (synthesized files lockJson d) = synthesized files lockJson d"
  by (simp add: refresh_def synthesized_def split: option.splits)

lemma licenseChanges_synthesized:
  "\<not> licenseChanges files lockJson (synthesized files lockJson d)"
  by (simp add: licenseChanges_def synthesized_def split: option.splits)

lemma main_Inl:
  assumes "fst (resolveInternal depth lockJson [] [] []) = Inl e"
  shows "main depth files lockJson jsonFile tpipJson =
     \<lparr>retval = (if list_ex (licenseChanges files lockJson) tpipJson then 1 else 2),
      tpip = map (refresh files lockJson) tpipJson,
      written = [(jsonFile, JSON_stringify (map (refresh files lockJson) tpipJson) 4)],
      console =
        snd (resolveInternal depth lockJson [] []
               (snd (checkLoop tpipJson 0 [Log_Updating, Log_In jsonFile]))) @
        [Error_Message e, Error_Object e] @
        concat (map (updateMessages files lockJson) tpipJson) @
        [Error_ManualInput, Warn_UseTpipUpdate]\<rparr>"
proof -
  let ?con1 = "snd (checkLoop tpipJson 0 [Log_Updating, Log_In jsonFile])"
  have "fst (resolveInternal depth lockJson [] [] ?con1) = Inl e"
    using assms resolveInternal_results [of depth lockJson "[]" "[]" ?con1] by simp
  then have run: "resolveInternal depth lockJson [] [] ?con1 =
                  (Inl e, snd (resolveInternal depth lockJson [] [] ?con1))"
    by (simp add: prod_eq_iff)
  have check: "checkLoop tpipJson 0 [Log_Updating, Log_In jsonFile] =
               (fst (checkLoop tpipJson 0 [Log_Updating, Log_In jsonFile]), ?con1)"
    by simp
  show ?thesis
    unfolding main_def Let_def
    by (subst check, simp only: prod.case, subst run)
       (simp add: updateLoop_eq)
qed

lemma main_Inr:
  assumes "fst (resolveInternal depth lockJson [] [] []) = Inr results"
    and "ms = filter (\<lambda>d. \<not> list_ex (\<lambda>t. name t = d) tpipJson) (map fst results)"
  shows "main depth files lockJson jsonFile tpipJson =
     \<lparr>retval = (if list_ex (licenseChanges files lockJson) tpipJson then 1
                else if ms \<noteq> [] then 2
                else if list_ex hasFixMe tpipJson then 1 else 0),
      tpip = map (refresh files lockJson) tpipJson @ map (synthesized files lockJson) ms,
      written = [(jsonFile,
                  JSON_stringify (map (refresh files lockJson) tpipJson @
                                  map (synthesized files lockJson) ms) 4)],
      console =
        snd (resolveInternal depth lockJson [] []
               (snd (checkLoop tpipJson 0 [Log_Updating, Log_In jsonFile]))) @
        (if ms \<noteq> []
         then Error_MissingDependencies # concat (map (pushMessages files lockJson) ms)
         else []) @
        concat (map (updateMessages files lockJson)
                  (tpipJson @ map (synthesized files lockJson) ms)) @
        (if (if list_ex (licenseChanges files lockJson) tpipJson then 1
             else if ms \<noteq> [] then 2
             else if list_ex hasFixMe tpipJson then 1 else 0) \<noteq> (0::int)
         then [Error_ManualInput, Warn_UseTpipUpdate] else [])\<rparr>"
proof -
  let ?con1 = "snd (checkLoop tpipJson 0 [Log_Updating, Log_In jsonFile])"
  have "fst (resolveInternal depth lockJson [] [] ?con1) = Inr results"
    using assms(1) resolveInternal_results [of depth lockJson "[]" "[]" ?con1] by simp
  then have run: "resolveInternal depth lockJson [] [] ?con1 =
                  (Inr results, snd (resolveInternal depth lockJson [] [] ?con1))"
    by (simp add: prod_eq_iff)
  have check: "checkLoop tpipJson 0 [Log_Updating, Log_In jsonFile] =
               (if list_ex hasFixMe tpipJson then 1 else 0, ?con1)"
    by (simp add: prod_eq_iff checkLoop_result)
  have nochange: "list_ex (licenseChanges files lockJson) (map (synthesized files lockJson) xs) = False"
    for xs
    by (simp add: list_ex_iff licenseChanges_synthesized)
  have same: "map (refresh files lockJson) (map (synthesized files lockJson) xs) =
              map (synthesized files lockJson) xs" for xs
    by (induction xs) (simp_all add: refresh_synthesized)
  have unfolded: "main depth files lockJson jsonFile tpipJson =
     (case (if length ms > 0 then
                (let (pushed, con) =
                       pushLoop files lockJson ms tpipJson
                         (snd (resolveInternal depth lockJson [] [] ?con1) @
                          [Error_MissingDependencies])
                 in (pushed, 2, con))
              else (tpipJson, if list_ex hasFixMe tpipJson then 1 else 0,
                    snd (resolveInternal depth lockJson [] [] ?con1))) of
        (tpipJson3, result3, con3) \<Rightarrow>
          (case updateLoop files lockJson tpipJson3 [] result3 con3 of
             (tpipJson4, result4, con4) \<Rightarrow>
               \<lparr>retval = result4, tpip = tpipJson4,
                written = [(jsonFile, JSON_stringify tpipJson4 4)],
                console = (if result4 \<noteq> 0
                           then con4 @ [Error_ManualInput, Warn_UseTpipUpdate]
                           else con4)\<rparr>))"
    unfolding main_def Let_def assms(2)
    by (subst check, simp only: prod.case, subst run)
       (simp only: prod.case sum.case)
  show ?thesis
  proof (cases "ms = []")
    case True
    then show ?thesis
      unfolding unfolded by (simp add: updateLoop_eq)
  next
    case False
    then show ?thesis
      unfolding unfolded
      by (simp add: updateLoop_eq pushLoop_eq nochange same
               del: map_map)
  qed
qed

subsection \<open>Shape of the manifest a run leaves\<close>

lemma main_tpip_shape:
  "\<exists>ms. tpip (main depth files lockJson jsonFile tpipJson) =
          map (refresh files lockJson) tpipJson @ map (synthesized files lockJson) ms"
proof (cases "fst (resolveInternal depth lockJson [] [] [])")
  case (Inl e)
  have "tpip (main depth files lockJson jsonFile tpipJson) =
        map (refresh files lockJson) tpipJson @ map (synthesized files lockJson) []"
    by (simp add: main_Inl [OF Inl])
  then show ?thesis by blast
next
  case (Inr results)
  show ?thesis
    by (rule exI, simp add: main_Inr [OF Inr refl])
qed

lemma main_retval_hasFixMe:
  assumes "list_ex hasFixMe tpipJson"
  shows "retval (main depth files lockJson jsonFile tpipJson) \<noteq> 0"
proof (cases "fst (resolveInternal depth lockJson [] [] [])")
  case (Inl e)
  show ?thesis by (simp add: main_Inl [OF Inl])
next
  case (Inr results)
  show ?thesis using assms by (simp add: main_Inr [OF Inr refl])
qed

lemma main_console_hasFixMe:
  assumes "e \<in> set tpipJson" and "hasFixMe e"
  shows "Error_NeedsCompletion (name e) \<in>
           set (console (main depth files lockJson jsonFile tpipJson))"
proof -
  let ?con1 = "snd (checkLoop tpipJson 0 [Log_Updating, Log_In jsonFile])"
  have "Error_NeedsCompletion (name e) \<in> set ?con1"
    using assms by (auto simp: checkLoop_console)
  then have inres: "Error_NeedsCompletion (name e) \<in>
                 set (snd (resolveInternal depth lockJson [] [] ?con1))"
    using resolve_console_aux(1) [of ?con1 depth lockJson "[]" "[]"] by blast
  show ?thesis
  proof (cases "fst (resolveInternal depth lockJson [] [] [])")
    case (Inl x)
    show ?thesis using inres by (simp add: main_Inl [OF Inl])
  next
    case (Inr results)
    show ?thesis using inres by (simp add: main_Inr [OF Inr refl])
  qed
qed


subsection \<open>Placeholders and the exit code\<close>

text \<open>
  C4: if the version, the SPDX identifier, the URL or the licence of some manifest entry
  equals the placeholder \<^verbatim>\<open><FIXME>\<close>, the run exits non-zero, whatever the lock graph,
  the installed packages and the call stack are.
\<close>

theorem placeholder_exit_nonzero:
  assumes "e \<in> set tpipJson"
    and "version e = FIXME \<or> spdx e = FIXME \<or> url e = FIXME \<or> license e = FIXME"
  shows "retval (main depth files lockJson jsonFile tpipJson) \<noteq> 0"
proof -
  have "hasFixMe e" using assms(2) by (auto simp: hasFixMe_def)
  with assms(1) have "list_ex hasFixMe tpipJson" by (auto simp: list_ex_iff)
  then show ?thesis by (rule main_retval_hasFixMe)
qed

theorem placeholder_exit_nonzero_witness:
  "yargs_open \<in> set [yargs_open] \<and>
   (version yargs_open = FIXME \<or> spdx yargs_open = FIXME \<or> url yargs_open = FIXME \<or>
    license yargs_open = FIXME) \<and>
   retval (main 8 files_app lock_app ''docs/third-party-licenses.json'' [yargs_open]) \<noteq> 0"
proof -
  have a: "yargs_open \<in> set [yargs_open]" by simp
  have b: "version yargs_open = FIXME \<or> spdx yargs_open = FIXME \<or> url yargs_open = FIXME \<or>
           license yargs_open = FIXME"
    by (simp add: yargs_open_def FIXME_def)
  from a b placeholder_exit_nonzero [OF a b] show ?thesis by blast
qed

text \<open>
  C10: the entries that a run appends are the ones behind the entries it read. Each of
  them has the placeholder in \<^verbatim>\<open>url\<close> and \<^verbatim>\<open>license\<close>, so \<^verbatim>\<open>hasFixMe\<close> holds for it, and
  any later run that reads the written manifest (with whatever lock graph, installed
  packages, path and call stack) reports the entry and exits non-zero.
\<close>

theorem synthesized_entry_flagged:
  assumes "e \<in> set (drop (length tpipJson)
                       (tpip (main depth files lockJson jsonFile tpipJson)))"
  shows "url e = FIXME \<and> license e = FIXME \<and> hasFixMe e \<and>
         Error_NeedsCompletion (name e) \<in>
           set (console (main depth' files' lockJson' jsonFile'
                           (tpip (main depth files lockJson jsonFile tpipJson)))) \<and>
         retval (main depth' files' lockJson' jsonFile'
                   (tpip (main depth files lockJson jsonFile tpipJson))) \<noteq> 0"
proof -
  let ?written = "tpip (main depth files lockJson jsonFile tpipJson)"
  obtain ms where ms: "?written =
      map (refresh files lockJson) tpipJson @ map (synthesized files lockJson) ms"
    using main_tpip_shape by blast
  have "drop (length tpipJson) ?written = map (synthesized files lockJson) ms"
    by (simp add: ms)
  with assms obtain d where e: "e = synthesized files lockJson d" by auto
  have fields: "url e = FIXME \<and> license e = FIXME"
    by (simp add: e synthesized_def)
  then have flagged: "hasFixMe e" by (simp add: hasFixMe_def)
  have mem: "e \<in> set ?written" using assms by (rule in_set_dropD)
  have "Error_NeedsCompletion (name e) \<in>
          set (console (main depth' files' lockJson' jsonFile' ?written))"
    using mem flagged by (rule main_console_hasFixMe)
  moreover have "retval (main depth' files' lockJson' jsonFile' ?written) \<noteq> 0"
    using mem flagged by (intro main_retval_hasFixMe) (auto simp: list_ex_iff)
  ultimately show ?thesis using fields flagged by blast
qed

theorem synthesized_entry_flagged_witness:
  "semver_pushed \<in> set (drop (length [yargs_open])
      (tpip (main 8 files_app lock_app ''docs/third-party-licenses.json'' [yargs_open]))) \<and>
   url semver_pushed = FIXME \<and> license semver_pushed = FIXME \<and> hasFixMe semver_pushed \<and>
   Error_NeedsCompletion (name semver_pushed) \<in>
     set (console (main 8 files_app lock_app ''docs/third-party-licenses.json''
            (tpip (main 8 files_app lock_app ''docs/third-party-licenses.json''
                     [yargs_open])))) \<and>
   retval (main 8 files_app lock_app ''docs/third-party-licenses.json''
             (tpip (main 8 files_app lock_app ''docs/third-party-licenses.json''
                      [yargs_open]))) \<noteq> 0"
proof -
  have h: "semver_pushed \<in> set (drop (length [yargs_open])
      (tpip (main 8 files_app lock_app ''docs/third-party-licenses.json'' [yargs_open])))"
    by code_simp
  from h synthesized_entry_flagged [OF h, of 8 files_app lock_app
         "''docs/third-party-licenses.json''"]
  show ?thesis by blast
qed

subsection \<open>Keys of the resolved set\<close>

text \<open>
  C9: when the resolver returns, started with an empty accumulator, no key of what it
  returns starts with \<^verbatim>\<open>@types\<close> or with \<^verbatim>\<open>@arm-debug\<close>, however deep the recursion
  went.
\<close>

theorem resolved_keys_outside_namespaces:
  assumes "fst (resolveInternal depth lockJson nm [] con) = Inr results"
    and "k \<in> set (map fst results)"
  shows "\<not> startsWith k ''@types'' \<and> \<not> startsWith k ''@arm-debug''"
proof -
  have "extends [] results"
    using assms(1) by (rule resolveInternal_extends)
  with assms(2) show ?thesis by (auto simp: extends_def)
qed

theorem resolved_keys_outside_namespaces_witness:
  "fst (resolveInternal 8 lock_app [] [] []) =
     Inr [(''yargs'', ''^17.7.2''), (''semver'', ''^7.6.0'')] \<and>
   ''semver'' \<in> set (map fst [(''yargs'', ''^17.7.2''), (''semver'', ''^7.6.0'')]) \<and>
   \<not> startsWith ''semver'' ''@types'' \<and> \<not> startsWith ''semver'' ''@arm-debug''"
proof -
  have a: "fst (resolveInternal 8 lock_app [] [] []) =
           Inr [(''yargs'', ''^17.7.2''), (''semver'', ''^7.6.0'')]"
    by code_simp
  have b: "''semver'' \<in> set (map fst [(''yargs'', ''^17.7.2''), (''semver'', ''^7.6.0'')])"
    by simp
  from a b resolved_keys_outside_namespaces [OF a b] show ?thesis by blast
qed

subsection \<open>Running twice\<close>

lemma refresh_name: "name (refresh files lockJson e) = name e"
  by (simp add: refresh_def split: option.splits)

lemma refresh_idem:
  "refresh files lockJson (refresh files lockJson e) = refresh files lockJson e"
  by (simp add: refresh_def split: option.splits)

lemma synthesized_name: "name (synthesized files lockJson d) = d"
  by (simp add: synthesized_def)

lemma main_written:
  "written (main depth files lockJson jsonFile tpipJson) =
   [(jsonFile, JSON_stringify (tpip (main depth files lockJson jsonFile tpipJson)) 4)]"
proof (cases "fst (resolveInternal depth lockJson [] [] [])")
  case (Inl e)
  show ?thesis by (simp add: main_Inl [OF Inl])
next
  case (Inr results)
  show ?thesis by (simp add: main_Inr [OF Inr refl])
qed

text \<open>
  C6: a second run over the manifest that the first run wrote, with the same lock graph
  and the same installed packages, writes the same data to the same path: the manifest
  is a fixed point of the update. (The manifest a run reads is the one the previous run
  wrote, \<^verbatim>\<open>JSON.parse\<close> being the inverse of \<^verbatim>\<open>JSON.stringify\<close> on arrays of such entries.)
\<close>

theorem second_run_writes_same:
  "written (main depth files lockJson jsonFile
              (tpip (main depth files lockJson jsonFile tpipJson))) =
   written (main depth files lockJson jsonFile tpipJson) \<and>
   tpip (main depth files lockJson jsonFile
           (tpip (main depth files lockJson jsonFile tpipJson))) =
   tpip (main depth files lockJson jsonFile tpipJson)"
proof -
  have same: "tpip (main depth files lockJson jsonFile
                      (tpip (main depth files lockJson jsonFile tpipJson))) =
              tpip (main depth files lockJson jsonFile tpipJson)"
  proof (cases "fst (resolveInternal depth lockJson [] [] [])")
    case (Inl e)
    show ?thesis
      by (simp add: main_Inl [OF Inl] refresh_idem)
  next
    case (Inr results)
    define ms where "ms = filter (\<lambda>d. \<not> list_ex (\<lambda>t. name t = d) tpipJson) (map fst results)"
    define t1 where "t1 = map (refresh files lockJson) tpipJson @
                          map (synthesized files lockJson) ms"
    have first: "tpip (main depth files lockJson jsonFile tpipJson) = t1"
      by (simp add: main_Inr [OF Inr ms_def] t1_def)
    have covered: "list_ex (\<lambda>t. name t = d) t1" if "d \<in> set (map fst results)" for d
    proof (cases "list_ex (\<lambda>t. name t = d) tpipJson")
      case True
      then obtain t where "t \<in> set tpipJson" "name t = d" by (auto simp: list_ex_iff)
      then have "refresh files lockJson t \<in> set t1" "name (refresh files lockJson t) = d"
        by (auto simp: t1_def refresh_name)
      then show ?thesis unfolding list_ex_iff by blast
    next
      case False
      with that have "d \<in> set ms" by (simp add: ms_def)
      then have "synthesized files lockJson d \<in> set t1" by (simp add: t1_def)
      then show ?thesis unfolding list_ex_iff using synthesized_name by blast
    qed
    have none: "[] = filter (\<lambda>d. \<not> list_ex (\<lambda>t. name t = d) t1) (map fst results)"
      using covered by (simp add: filter_empty_conv)
    have "tpip (main depth files lockJson jsonFile t1) = map (refresh files lockJson) t1"
      by (simp add: main_Inr [OF Inr none])
    also have "\<dots> = t1"
      by (simp add: t1_def refresh_idem refresh_synthesized)
    finally show ?thesis by (simp add: first)
  qed
  then show ?thesis by (simp add: main_written)
qed

theorem second_run_writes_same_witness:
  "written (main 8 files_app lock_app ''docs/third-party-licenses.json''
              (tpip (main 8 files_app lock_app ''docs/third-party-licenses.json''
                       [yargs_open]))) =
   written (main 8 files_app lock_app ''docs/third-party-licenses.json'' [yargs_open]) \<and>
   tpip (main 8 files_app lock_app ''docs/third-party-licenses.json''
           (tpip (main 8 files_app lock_app ''docs/third-party-licenses.json''
                    [yargs_open]))) = [yargs_open, semver_pushed]"
proof -
  have "tpip (main 8 files_app lock_app ''docs/third-party-licenses.json'' [yargs_open]) =
        [yargs_open, semver_pushed]"
    by code_simp
  with second_run_writes_same [of 8 files_app lock_app "''docs/third-party-licenses.json''"
         "[yargs_open]"]
  show ?thesis by simp
qed

subsection \<open>The write at the end of \<^verbatim>\<open>main\<close>\<close>

lemma join_indent:
  "xs \<noteq> [] \<Longrightarrow> p @ join (s @ p) xs = join s (map ((@) p) xs)"
  by (induction s xs rule: join.induct) simp_all

lemma entry_indented4:
  "''    '' @ serializeJSONObject ''    '' ''    '' (members d) = entry_indented4 d"
proof (cases "ownKeys d = []")
  case True
  then show ?thesis
    by (simp add: serializeJSONObject_def members_def entry_indented4_def)
next
  case False
  let ?props = "map (\<lambda>(k, v). quoteJSONString k @ '': '' @ v) (members d)"
  have lines: "map ((@) ''        '') ?props = map (member_indented8 d) (ownKeys d)"
    by (simp add: members_def member_indented8_def comp_def)
  have "?props \<noteq> []" using False by (simp add: members_def)
  then have "''        '' @ join (('','' @ [CHR 0x0A]) @ ''        '') ?props =
             join ('','' @ [CHR 0x0A]) (map ((@) ''        '') ?props)"
    by (rule join_indent)
  then have "''        '' @ join ('','' @ [CHR 0x0A] @ ''        '') ?props =
             join ('','' @ [CHR 0x0A]) (map (member_indented8 d) (ownKeys d))"
    by (simp only: lines append_assoc)
  then show ?thesis
    using False
    by (simp add: serializeJSONObject_def entry_indented4_def members_def)
qed



subsection \<open>Reading the written text back\<close>






















lemma indented4_sample:
  "indented4 [yargs_open] = ''[''  @ [CHR 0x0A] @
     ''    {'' @ [CHR 0x0A] @
     ''        '' @ [CHR 0x22] @ ''name'' @ [CHR 0x22] @ '': '' @ [CHR 0x22] @ ''yargs'' @ [CHR 0x22] @ '','' @ [CHR 0x0A] @
     ''        '' @ [CHR 0x22] @ ''version'' @ [CHR 0x22] @ '': '' @ [CHR 0x22] @ ''18.0.0'' @ [CHR 0x22] @ '','' @ [CHR 0x0A] @
     ''        '' @ [CHR 0x22] @ ''spdx'' @ [CHR 0x22] @ '': '' @ [CHR 0x22] @ ''MIT'' @ [CHR 0x22] @ '','' @ [CHR 0x0A] @
     ''        '' @ [CHR 0x22] @ ''url'' @ [CHR 0x22] @ '': '' @ [CHR 0x22] @ ''<FIXME>'' @ [CHR 0x22] @ '','' @ [CHR 0x0A] @
     ''        '' @ [CHR 0x22] @ ''license'' @ [CHR 0x22] @ '': '' @ [CHR 0x22] @ ''MIT License'' @ [CHR 0x22] @ [CHR 0x0A] @
     ''    }'' @ [CHR 0x0A] @ '']''"
  by code_simp

lemma indented4_reordered_sample:
  "indented4 [leftpad] = ''[''  @ [CHR 0x0A] @
     ''    {'' @ [CHR 0x0A] @
     ''        '' @ [CHR 0x22] @ ''version'' @ [CHR 0x22] @ '': '' @ [CHR 0x22] @ ''1.3.0'' @ [CHR 0x22] @ '','' @ [CHR 0x0A] @
     ''        '' @ [CHR 0x22] @ ''name'' @ [CHR 0x22] @ '': '' @ [CHR 0x22] @ ''left-pad'' @ [CHR 0x22] @ '','' @ [CHR 0x0A] @
     ''        '' @ [CHR 0x22] @ ''license'' @ [CHR 0x22] @ '': '' @ [CHR 0x22] @ ''WTFPL'' @ [CHR 0x22] @ '','' @ [CHR 0x0A] @
     ''        '' @ [CHR 0x22] @ ''url'' @ [CHR 0x22] @ '': '' @ [CHR 0x22] @ ''https://github.com/left-pad/left-pad'' @ [CHR 0x22] @ '','' @ [CHR 0x0A] @
     ''        '' @ [CHR 0x22] @ ''spdx'' @ [CHR 0x22] @ '': '' @ [CHR 0x22] @ ''WTFPL'' @ [CHR 0x22] @ [CHR 0x0A] @
     ''    }'' @ [CHR 0x0A] @ '']''"
  by code_simp

subsection \<open>Drift of tracked entries\<close>

lemma main_tpip_nth:
  assumes "i < length tpipJson"
  shows "tpip (main depth files lockJson jsonFile tpipJson) ! i =
         refresh files lockJson (tpipJson ! i)"
proof -
  obtain ms where "tpip (main depth files lockJson jsonFile tpipJson) =
      map (refresh files lockJson) tpipJson @ map (synthesized files lockJson) ms"
    using main_tpip_shape by blast
  with assms show ?thesis by (simp add: nth_append)
qed

lemma main_retval_licenseChanges:
  assumes "list_ex (licenseChanges files lockJson) tpipJson"
  shows "retval (main depth files lockJson jsonFile tpipJson) = 1"
proof (cases "fst (resolveInternal depth lockJson [] [] [])")
  case (Inl e)
  show ?thesis using assms by (simp add: main_Inl [OF Inl])
next
  case (Inr results)
  show ?thesis using assms by (simp add: main_Inr [OF Inr refl])
qed

text \<open>
  C1, as stated, fails twice. An entry whose tracked SPDX identifier differs from the
  detected licence, but whose version is the locked one, is left alone and the run exits
  with 0 (first run below). And when a dependency is missing and a tracked entry changes
  its licence, the exit code is 1, not 2 (second run: \<^verbatim>\<open>semver\<close> is appended, \<^verbatim>\<open>yargs\<close>
  changes from Apache-2.0 to MIT).
\<close>

theorem stale_license_kept_and_code_2_replaced:
  "getLicense files_app (name semver_stale) \<noteq> spdx semver_stale \<and>
   tpip (main 8 files_app lock_app ''docs/third-party-licenses.json''
           [yargs_done, semver_stale]) = [yargs_done, semver_stale] \<and>
   retval (main 8 files_app lock_app ''docs/third-party-licenses.json''
             [yargs_done, semver_stale]) = 0 \<and>
   tpip (main 8 files_app lock_app ''docs/third-party-licenses.json'' [yargs_old]) =
     [yargs_old\<lparr>version := ''18.0.0'', spdx := ''MIT''\<rparr>, semver_pushed] \<and>
   retval (main 8 files_app lock_app ''docs/third-party-licenses.json'' [yargs_old]) = 1"
  by code_simp

text \<open>
  C1, amended: the licence of a tracked entry is only looked at when the lock graph has
  the entry's package with a version different from the tracked one. Then the version
  is updated; if the detected licence differs from the tracked SPDX identifier, the
  identifier is updated too and the run exits non-zero, with code 1 when the resolution
  succeeded and every resolved name has an entry. An entry whose package has the tracked
  version, or is not in the lock graph, is left as it is, whatever its licence.
\<close>

theorem license_change_updated_exit_1:
  assumes "i < length tpipJson" and "tpipJson ! i = e"
  shows "(getPackage (name e) lockJson = Some locked \<and> version e \<noteq> pkg_version locked \<and>
          spdx e \<noteq> getLicense files (name e) \<longrightarrow>
            tpip (main depth files lockJson jsonFile tpipJson) ! i =
              e\<lparr>version := pkg_version locked, spdx := getLicense files (name e)\<rparr> \<and>
            retval (main depth files lockJson jsonFile tpipJson) \<noteq> 0 \<and>
            (fst (resolveInternal depth lockJson [] [] con) = Inr results \<and>
             (\<forall>d \<in> set (map fst results). list_ex (\<lambda>t. name t = d) tpipJson) \<longrightarrow>
               retval (main depth files lockJson jsonFile tpipJson) = 1)) \<and>
         (getPackage (name e) lockJson = Some locked \<and> version e \<noteq> pkg_version locked \<and>
          spdx e = getLicense files (name e) \<longrightarrow>
            tpip (main depth files lockJson jsonFile tpipJson) ! i =
              e\<lparr>version := pkg_version locked\<rparr>) \<and>
         (getPackage (name e) lockJson = Some locked \<and> version e = pkg_version locked \<longrightarrow>
            tpip (main depth files lockJson jsonFile tpipJson) ! i = e) \<and>
         (getPackage (name e) lockJson = None \<longrightarrow>
            tpip (main depth files lockJson jsonFile tpipJson) ! i = e)"
proof -
  have nth: "tpip (main depth files lockJson jsonFile tpipJson) ! i = refresh files lockJson e"
    using main_tpip_nth [OF assms(1)] assms(2) by simp
  have mem: "e \<in> set tpipJson"
    using assms by (auto simp: in_set_conv_nth)
  have "retval (main depth files lockJson jsonFile tpipJson) = 1"
    if "getPackage (name e) lockJson = Some locked" "version e \<noteq> pkg_version locked"
       "spdx e \<noteq> getLicense files (name e)"
  proof -
    have "licenseChanges files lockJson e"
      using that by (simp add: licenseChanges_def)
    with mem have "list_ex (licenseChanges files lockJson) tpipJson"
      by (auto simp: list_ex_iff)
    then show ?thesis by (rule main_retval_licenseChanges)
  qed
  then show ?thesis
    by (auto simp: nth refresh_def)
qed

theorem license_change_updated_exit_1_witness:
  "tpip (main 8 files_app lock_app ''docs/third-party-licenses.json''
           [yargs_old, semver_stale, leftpad]) ! 0 =
     yargs_old\<lparr>version := ''18.0.0'', spdx := ''MIT''\<rparr> \<and>
   retval (main 8 files_app lock_app ''docs/third-party-licenses.json''
             [yargs_old, semver_stale, leftpad]) = 1 \<and>
   tpip (main 8 files_app lock_app ''docs/third-party-licenses.json''
           [yargs_old, semver_stale, leftpad]) ! 1 = semver_stale \<and>
   tpip (main 8 files_app lock_app ''docs/third-party-licenses.json''
           [yargs_old, semver_stale, leftpad]) ! 2 = leftpad"
proof -
  have i0: "(0::nat) < length [yargs_old, semver_stale, leftpad]"
    and i1: "(1::nat) < length [yargs_old, semver_stale, leftpad]"
    and i2: "(2::nat) < length [yargs_old, semver_stale, leftpad]" by simp_all
  have e0: "[yargs_old, semver_stale, leftpad] ! 0 = yargs_old"
    and e1: "[yargs_old, semver_stale, leftpad] ! 1 = semver_stale"
    and e2: "[yargs_old, semver_stale, leftpad] ! 2 = leftpad" by simp_all
  have r: "fst (resolveInternal 8 lock_app [] [] []) =
             Inr [(''yargs'', ''^17.7.2''), (''semver'', ''^7.6.0'')]"
    by code_simp
  have tracked: "\<forall>d \<in> set (map fst [(''yargs'', ''^17.7.2''), (''semver'', ''^7.6.0'')]).
                   list_ex (\<lambda>t. name t = d) [yargs_old, semver_stale, leftpad]"
    by (simp add: yargs_old_def semver_stale_def)
  have p0: "getPackage (name yargs_old) lock_app =
              Some \<lparr>pkg_version = ''18.0.0'', dependencies = None\<rparr>"
    and p1: "getPackage (name semver_stale) lock_app =
              Some \<lparr>pkg_version = ''7.6.3'', dependencies = None\<rparr>"
    and p2: "getPackage (name leftpad) lock_app = None"
    by code_simp+
  have v0: "version yargs_old \<noteq> ''18.0.0''" and v1: "version semver_stale = ''7.6.3''"
    by code_simp+
  have l0: "getLicense files_app (name yargs_old) = ''MIT''"
    and s0: "spdx yargs_old \<noteq> ''MIT''"
    by code_simp+
  from license_change_updated_exit_1 [OF i0 e0, of lock_app
         "\<lparr>pkg_version = ''18.0.0'', dependencies = None\<rparr>" files_app 8
         "''docs/third-party-licenses.json''" "[]"
         "[(''yargs'', ''^17.7.2''), (''semver'', ''^7.6.0'')]"]
       license_change_updated_exit_1 [OF i1 e1, of lock_app
         "\<lparr>pkg_version = ''7.6.3'', dependencies = None\<rparr>" files_app 8
         "''docs/third-party-licenses.json''"]
       license_change_updated_exit_1 [OF i2 e2, of lock_app
         "\<lparr>pkg_version = ''7.6.3'', dependencies = None\<rparr>" files_app 8
         "''docs/third-party-licenses.json''"]
       p0 p1 p2 v0 v1 l0 s0 r tracked
  show ?thesis by simp
qed

subsection \<open>Missing dependencies\<close>

lemma main_resolved:
  assumes "fst (resolveInternal depth lockJson [] [] con) = Inr results"
  shows "tpip (main depth files lockJson jsonFile tpipJson) =
           map (refresh files lockJson) tpipJson @
           map (synthesized files lockJson)
             (filter (\<lambda>d. \<not> list_ex (\<lambda>t. name t = d) tpipJson) (map fst results))"
    and "retval (main depth files lockJson jsonFile tpipJson) =
           (if list_ex (licenseChanges files lockJson) tpipJson then 1
            else if filter (\<lambda>d. \<not> list_ex (\<lambda>t. name t = d) tpipJson) (map fst results) \<noteq> []
                 then 2
            else if list_ex hasFixMe tpipJson then 1 else 0)"
proof -
  have base: "fst (resolveInternal depth lockJson [] [] []) = Inr results"
    using assms resolveInternal_results [of depth lockJson "[]" "[]" con] by simp
  show "tpip (main depth files lockJson jsonFile tpipJson) =
           map (refresh files lockJson) tpipJson @
           map (synthesized files lockJson)
             (filter (\<lambda>d. \<not> list_ex (\<lambda>t. name t = d) tpipJson) (map fst results))"
    by (simp add: main_Inr [OF base refl])
  show "retval (main depth files lockJson jsonFile tpipJson) =
           (if list_ex (licenseChanges files lockJson) tpipJson then 1
            else if filter (\<lambda>d. \<not> list_ex (\<lambda>t. name t = d) tpipJson) (map fst results) \<noteq> []
                 then 2
            else if list_ex hasFixMe tpipJson then 1 else 0)"
    by (simp add: main_Inr [OF base refl])
qed

text \<open>
  C2, as stated, puts the placeholder in the SPDX field and the detected licence in the
  licence field. The script does the reverse: the entry pushed for \<^verbatim>\<open>semver\<close> has the
  licence declared by the installed package, ISC, in \<^verbatim>\<open>spdx\<close> and the placeholder in
  \<^verbatim>\<open>license\<close>.
\<close>

theorem pushed_entry_spdx_detected:
  "tpip (main 8 files_app lock_app ''docs/third-party-licenses.json'' [yargs_done]) =
     [yargs_done, semver_pushed] \<and>
   getLicense files_app ''semver'' = ''ISC'' \<and>
   spdx semver_pushed = ''ISC'' \<and> spdx semver_pushed \<noteq> FIXME \<and>
   license semver_pushed = FIXME \<and> license semver_pushed \<noteq> ''ISC''"
  by code_simp

text \<open>
  C2, amended: every name of the resolved set that no manifest entry carries is appended
  as a new entry whose \<^verbatim>\<open>url\<close> and \<^verbatim>\<open>license\<close> fields hold the placeholder, whose \<^verbatim>\<open>spdx\<close>
  field holds the licence that the installed package declares (\<^verbatim>\<open>UNKNOWN\<close> when it has no
  \<^verbatim>\<open>package.json\<close>) and whose version is the one of the lock graph (the placeholder when
  the lock graph has no such package); its members stand in the order of the object
  literal. The run then exits non-zero, with code 2 when no tracked entry changes its
  licence in the same run.
\<close>

theorem missing_dependency_appended:
  assumes "fst (resolveInternal depth lockJson [] [] con) = Inr results"
    and "d \<in> set (map fst results)"
    and "\<not> list_ex (\<lambda>t. name t = d) tpipJson"
  shows "\<lparr>name = d,
          version = (case getPackage d lockJson of
                       None \<Rightarrow> FIXME | Some locked \<Rightarrow> pkg_version locked),
          spdx = (case files (packageJson d) of
                    None \<Rightarrow> ''UNKNOWN'' | Some json \<Rightarrow> json_license json),
          url = FIXME, license = FIXME,
          ownKeys = [M_name, M_version, M_spdx, M_url, M_license]\<rparr>
           \<in> set (drop (length tpipJson) (tpip (main depth files lockJson jsonFile tpipJson))) \<and>
         retval (main depth files lockJson jsonFile tpipJson) \<noteq> 0 \<and>
         (\<not> list_ex (licenseChanges files lockJson) tpipJson \<longrightarrow>
            retval (main depth files lockJson jsonFile tpipJson) = 2)"
proof -
  let ?ms = "filter (\<lambda>d. \<not> list_ex (\<lambda>t. name t = d) tpipJson) (map fst results)"
  have d: "d \<in> set ?ms" using assms(2,3) by simp
  then have nonempty: "?ms \<noteq> []" by (metis empty_iff empty_set)
  have "drop (length tpipJson) (tpip (main depth files lockJson jsonFile tpipJson)) =
        map (synthesized files lockJson) ?ms"
    by (simp add: main_resolved(1) [OF assms(1)])
  moreover have "synthesized files lockJson d \<in> set (map (synthesized files lockJson) ?ms)"
    using d by (rule imageI [of d "set ?ms" "synthesized files lockJson", folded set_map])
  ultimately have "synthesized files lockJson d \<in>
      set (drop (length tpipJson) (tpip (main depth files lockJson jsonFile tpipJson)))"
    by simp
  moreover have "retval (main depth files lockJson jsonFile tpipJson) =
           (if list_ex (licenseChanges files lockJson) tpipJson then 1 else 2)"
    using nonempty by (simp add: main_resolved(2) [OF assms(1)])
  ultimately show ?thesis
    by (simp add: synthesized_def getLicense_def)
qed

theorem missing_dependency_appended_witness:
  "fst (resolveInternal 8 lock_app [] [] []) =
     Inr [(''yargs'', ''^17.7.2''), (''semver'', ''^7.6.0'')] \<and>
   ''semver'' \<in> set (map fst [(''yargs'', ''^17.7.2''), (''semver'', ''^7.6.0'')]) \<and>
   \<not> list_ex (\<lambda>t. name t = ''semver'') [yargs_done] \<and>
   semver_pushed \<in> set (drop (length [yargs_done])
      (tpip (main 8 files_app lock_app ''docs/third-party-licenses.json'' [yargs_done]))) \<and>
   retval (main 8 files_app lock_app ''docs/third-party-licenses.json'' [yargs_done]) = 2"
proof -
  have a: "fst (resolveInternal 8 lock_app [] [] []) =
           Inr [(''yargs'', ''^17.7.2''), (''semver'', ''^7.6.0'')]"
    by code_simp
  have b: "''semver'' \<in> set (map fst [(''yargs'', ''^17.7.2''), (''semver'', ''^7.6.0'')])"
    by simp
  have c: "\<not> list_ex (\<lambda>t. name t = ''semver'') [yargs_done]"
    by (simp add: yargs_done_def)
  have entry: "\<lparr>name = ''semver'',
          version = (case getPackage ''semver'' lock_app of
                       None \<Rightarrow> FIXME | Some locked \<Rightarrow> pkg_version locked),
          spdx = (case files_app (packageJson ''semver'') of
                    None \<Rightarrow> ''UNKNOWN'' | Some json \<Rightarrow> json_license json),
          url = FIXME, license = FIXME,
          ownKeys = [M_name, M_version, M_spdx, M_url, M_license]\<rparr> = semver_pushed"
    by code_simp
  have quiet: "\<not> list_ex (licenseChanges files_app lock_app) [yargs_done]"
    by code_simp
  from a b c quiet
    missing_dependency_appended [OF a b c, of files_app "''docs/third-party-licenses.json''"]
  show ?thesis by (simp only: entry if_False simp_thms)
qed

subsection \<open>Packages absent from the lock graph\<close>

lemma resolveLoop_fails:
  assumes "(dependency, required) \<in> set ds"
    and "startsWith dependency ''@arm-debug''"
    and "\<And>results con. \<exists>e. fst (resolveInternal depth lockJson dependency results con) = Inl e"
  shows "\<exists>e. fst (resolveLoop depth lockJson ds results con) = Inl e"
  using assms(1)
proof (induction ds arbitrary: results con)
  case Nil
  then show ?case by simp
next
  case (Cons x ds)
  obtain d r where x: "x = (d, r)" by (cases x)
  show ?case
  proof (cases "startsWith d ''@arm-debug''")
    case internal: True
    obtain a b where ab: "resolveInternal depth lockJson d results con = (a, b)"
      by (cases "resolveInternal depth lockJson d results con")
    show ?thesis
    proof (cases a)
      case (Inl e)
      with internal ab x show ?thesis by simp
    next
      case (Inr results')
      have "d \<noteq> dependency"
      proof
        assume "d = dependency"
        with assms(3) [of results con] ab Inr show False by simp
      qed
      with Cons.prems x have "(dependency, required) \<in> set ds" by auto
      then obtain e where "fst (resolveLoop depth lockJson ds results' b) = Inl e"
        using Cons.IH by blast
      with internal ab Inr x show ?thesis by simp
    qed
  next
    case external: False
    with assms(2) have "d \<noteq> dependency" by auto
    with Cons.prems x have rest: "(dependency, required) \<in> set ds" by auto
    show ?thesis
    proof (cases "startsWith d ''@types''")
      case True
      with external x Cons.IH [OF rest, of results con] show ?thesis by simp
    next
      case types: False
      show ?thesis
      proof (cases "hasProperty d results")
        case True
        obtain e where "fst (resolveLoop depth lockJson ds results
             (con @ getPackage_console d lockJson @
                (if differs (getProperty d results)
                      (map_option pkg_version (getPackage d lockJson))
                 then [Warn_Conflicting d (getProperty d results)
                         (map_option pkg_version (getPackage d lockJson))]
                 else []))) = Inl e"
          using Cons.IH [OF rest] by blast
        with external types True x show ?thesis by simp
      next
        case False
        obtain e where "fst (resolveLoop depth lockJson ds (results @ [(d, r)]) con) = Inl e"
          using Cons.IH [OF rest] by blast
        with external types False x show ?thesis by simp
      qed
    qed
  qed
qed

lemma reachesAbsent_fails:
  assumes "reachesAbsent n lockJson nm"
  shows "\<exists>e. fst (resolveInternal depth lockJson nm results con) = Inl e"
  using assms
proof (induction n arbitrary: nm depth results con)
  case 0
  then show ?case by (cases depth) simp_all
next
  case (Suc n)
  show ?case
  proof (cases depth)
    case 0
    then show ?thesis by simp
  next
    case depth: (Suc m)
    show ?thesis
    proof (cases "getPackage nm lockJson")
      case None
      with depth show ?thesis by simp
    next
      case (Some nodePackage)
      let ?ds = "case dependencies nodePackage of None \<Rightarrow> [] | Some ds \<Rightarrow> ds"
      obtain dependency required where dep: "(dependency, required) \<in> set ?ds"
        and internal: "startsWith dependency ''@arm-debug''"
        and further: "reachesAbsent n lockJson dependency"
        using Suc.prems Some by (auto simp: list_ex_iff)
      have "\<exists>e. fst (resolveInternal m lockJson dependency results' con') = Inl e"
        for results' con'
        using further by (rule Suc.IH)
      with dep internal have "\<exists>e. fst (resolveLoop m lockJson ?ds results con) = Inl e"
        by (rule resolveLoop_fails)
      with depth Some show ?thesis by simp
    qed
  qed
qed

lemma main_failed:
  assumes "fst (resolveInternal depth lockJson [] [] con) = Inl e"
  shows "tpip (main depth files lockJson jsonFile tpipJson) =
           map (refresh files lockJson) tpipJson"
    and "retval (main depth files lockJson jsonFile tpipJson) =
           (if list_ex (licenseChanges files lockJson) tpipJson then 1 else 2)"
    and "Error_Message e \<in> set (console (main depth files lockJson jsonFile tpipJson))"
proof -
  have base: "fst (resolveInternal depth lockJson [] [] []) = Inl e"
    using assms resolveInternal_results [of depth lockJson "[]" "[]" con] by simp
  show "tpip (main depth files lockJson jsonFile tpipJson) =
           map (refresh files lockJson) tpipJson"
    by (simp add: main_Inl [OF base])
  show "retval (main depth files lockJson jsonFile tpipJson) =
           (if list_ex (licenseChanges files lockJson) tpipJson then 1 else 2)"
    by (simp add: main_Inl [OF base])
  show "Error_Message e \<in> set (console (main depth files lockJson jsonFile tpipJson))"
    by (simp add: main_Inl [OF base])
qed

text \<open>
  C5, as stated, fails for a referenced package outside the internal namespace: the root
  requires \<^verbatim>\<open>yargs\<close>, the lock graph has no \<^verbatim>\<open>node_modules/yargs\<close>, and the resolver records
  \<^verbatim>\<open>yargs\<close> like any other name; with \<^verbatim>\<open>yargs\<close> tracked the run exits with 0. And when the
  resolution does fail (second lock graph: \<^verbatim>\<open>@arm-debug/util\<close> is absent), the exit code
  is 1 if the licence of a tracked entry changes afterwards.
\<close>

theorem absent_external_package_recorded:
  "getPackage ''yargs'' lock_gap = None \<and>
   fst (resolveInternal 8 lock_gap [] [] []) = Inr [(''yargs'', ''^18.0.0'')] \<and>
   retval (main 8 files_app lock_gap ''docs/third-party-licenses.json'' [yargs_done]) = 0 \<and>
   fst (resolveInternal 8 lock_internal_gap [] [] []) = Inl (CannotResolve ''@arm-debug/util'') \<and>
   retval (main 8 files_app lock_internal_gap ''docs/third-party-licenses.json'' [yargs_old])
     = 1"
  by code_simp

text \<open>
  C5, amended: if the root package is absent from the lock graph, or an absent package
  is reached from the root along dependencies of the internal namespace (in any number
  \<open>n\<close> of steps), the resolution fails, whatever the call stack is. \<^verbatim>\<open>main\<close> catches the
  failure and reports it, appends nothing, and exits non-zero, with code 2 when no
  tracked entry changes its licence in the same run. A failure to resolve never names a
  package outside the internal namespace other than the root: such a package, absent or
  not, is recorded.
\<close>

theorem absent_internal_package_fails:
  assumes "reachesAbsent n lockJson []"
  shows "\<exists>e. fst (resolveInternal depth lockJson [] [] con) = Inl e \<and>
             Error_Message e \<in> set (console (main depth files lockJson jsonFile tpipJson)) \<and>
             length (tpip (main depth files lockJson jsonFile tpipJson)) = length tpipJson \<and>
             retval (main depth files lockJson jsonFile tpipJson) \<noteq> 0 \<and>
             (\<not> list_ex (licenseChanges files lockJson) tpipJson \<longrightarrow>
                retval (main depth files lockJson jsonFile tpipJson) = 2) \<and>
             (\<forall>k. e = CannotResolve k \<longrightarrow>
                  getPackage k lockJson = None \<and> (k = [] \<or> startsWith k ''@arm-debug''))"
proof -
  obtain e where e: "fst (resolveInternal depth lockJson [] [] con) = Inl e"
    using reachesAbsent_fails [OF assms] by blast
  have "\<forall>k. e = CannotResolve k \<longrightarrow>
          getPackage k lockJson = None \<and> (k = [] \<or> startsWith k ''@arm-debug'')"
    using e resolveInternal_cannot [of depth lockJson "[]" "[]" con] by blast
  with e main_failed [OF e, of files jsonFile tpipJson] show ?thesis
    by (intro exI [of _ e]) simp
qed

theorem absent_internal_package_fails_witness:
  "reachesAbsent 2 lock_internal_gap [] \<and>
   (\<exists>e. fst (resolveInternal 8 lock_internal_gap [] [] []) = Inl e \<and>
     Error_Message e \<in> set (console (main 8 files_app lock_internal_gap
                                ''docs/third-party-licenses.json'' [yargs_done])) \<and>
     length (tpip (main 8 files_app lock_internal_gap
                     ''docs/third-party-licenses.json'' [yargs_done])) = length [yargs_done] \<and>
     retval (main 8 files_app lock_internal_gap
               ''docs/third-party-licenses.json'' [yargs_done]) = 2 \<and>
     (\<forall>k. e = CannotResolve k \<longrightarrow>
          getPackage k lock_internal_gap = None \<and> (k = [] \<or> startsWith k ''@arm-debug'')))"
proof -
  have root: "reachesAbsent 2 lock_internal_gap []"
    by code_simp
  have quiet: "\<not> list_ex (licenseChanges files_app lock_internal_gap) [yargs_done]"
    by code_simp
  from root quiet
    absent_internal_package_fails [OF root, of 8 "[]" files_app
      "''docs/third-party-licenses.json''" "[yargs_done]"]
  show ?thesis by auto
qed

subsection \<open>A name met twice\<close>

lemma resolveLoop_extends:
  "fst (resolveLoop depth lockJson ds results con) = Inr r \<Longrightarrow> extends results r"
  using resolve_extends_aux(2) by blast

lemma extends_map_of:
  assumes "extends results r" and "map_of results d = Some v"
  shows "map_of r d = Some v"
proof -
  obtain added where "r = results @ added"
    using assms(1) by (auto simp: extends_def)
  with assms(2) show ?thesis by simp
qed

text \<open>
  C3, as stated, fails on both counts. In the first lock graph the internal package
  requires \<^verbatim>\<open>yargs\<close> as \<^verbatim>\<open>^17.7.2\<close> and the root, later and outside any internal package,
  as \<^verbatim>\<open>^18.0.0\<close>: the first requirement stays. In the second the two requirements differ
  (\<^verbatim>\<open>18.0.0\<close> and \<^verbatim>\<open>^18.0.0\<close>) and no warning is printed, because the recorded one equals
  the locked version.
\<close>

theorem last_seen_requirement_dropped:
  "resolveInternal 8 lock_app [] [] [] =
     (Inr [(''yargs'', ''^17.7.2''), (''semver'', ''^7.6.0'')],
      [Warn_Conflicting ''yargs'' (Own ''^17.7.2'') (Some ''18.0.0'')]) \<and>
   resolveInternal 8 lock_exact [] [] [] = (Inr [(''yargs'', ''18.0.0'')], [])"
  by code_simp

text \<open>
  C3, amended: when the loop meets a name outside both namespaces that the accumulator
  already records, it goes on with the accumulator unchanged, whatever the new
  requirement is: the requirement recorded first stays to the end of the loop and of any
  further resolution, for entries of the root and of internal packages alike. It
  prints a warning exactly when the recorded requirement is not the version the lock
  graph has for that package (in particular when the lock graph does not have the
  package); the new requirement plays no part in the test.
\<close>

theorem recorded_requirement_kept:
  assumes "map_of results d = Some v"
    and "\<not> startsWith d ''@arm-debug''" and "\<not> startsWith d ''@types''"
  shows "resolveLoop depth lockJson ((d, required) # rest) results con =
           resolveLoop depth lockJson rest results
             (con @ getPackage_console d lockJson @
              (if map_option pkg_version (getPackage d lockJson) \<noteq> Some v
               then [Warn_Conflicting d (Own v)
                       (map_option pkg_version (getPackage d lockJson))]
               else [])) \<and>
         (\<forall>results'. fst (resolveLoop depth lockJson ((d, required) # rest) results con) =
              Inr results' \<longrightarrow> map_of results' d = Some v) \<and>
         (\<forall>results'. fst (resolveInternal depth lockJson nm results con) = Inr results' \<longrightarrow>
              map_of results' d = Some v)"
proof -
  have "d \<in> set (map fst results)"
    using assms(1) by (metis map_of_eq_None_iff option.distinct(1) set_map)
  then have present: "hasProperty d results"
    by (simp add: hasProperty_def)
  have recorded: "getProperty d results = Own v"
    using assms(1) by (simp add: getProperty_def)
  have step: "resolveLoop depth lockJson ((d, required) # rest) results con =
           resolveLoop depth lockJson rest results
             (con @ getPackage_console d lockJson @
              (if map_option pkg_version (getPackage d lockJson) \<noteq> Some v
               then [Warn_Conflicting d (Own v)
                       (map_option pkg_version (getPackage d lockJson))]
               else []))"
    using assms(2,3) present
    by (cases "getPackage d lockJson") (simp_all add: recorded differs_def)
  have loop: "map_of results' d = Some v"
    if "fst (resolveLoop depth lockJson ((d, required) # rest) results con) = Inr results'"
    for results'
    using resolveLoop_extends [OF that] assms(1) by (rule extends_map_of)
  have deep: "map_of results' d = Some v"
    if "fst (resolveInternal depth lockJson nm results con) = Inr results'" for results'
    using resolveInternal_extends [OF that] assms(1) by (rule extends_map_of)
  from step loop deep show ?thesis by blast
qed

theorem recorded_requirement_kept_witness:
  "map_of [(''yargs'', ''^17.7.2''), (''semver'', ''^7.6.0'')] ''yargs'' = Some ''^17.7.2'' \<and>
   \<not> startsWith ''yargs'' ''@arm-debug'' \<and> \<not> startsWith ''yargs'' ''@types'' \<and>
   resolveLoop 7 lock_app [(''yargs'', ''^18.0.0''), (''@types/node'', ''^20.11.30'')]
       [(''yargs'', ''^17.7.2''), (''semver'', ''^7.6.0'')] [] =
     (Inr [(''yargs'', ''^17.7.2''), (''semver'', ''^7.6.0'')],
      [Warn_Conflicting ''yargs'' (Own ''^17.7.2'') (Some ''18.0.0'')]) \<and>
   map_of [(''yargs'', ''^17.7.2''), (''semver'', ''^7.6.0'')] ''yargs'' = Some ''^17.7.2''"
proof -
  have a: "map_of [(''yargs'', ''^17.7.2''), (''semver'', ''^7.6.0'')] ''yargs'' =
           Some ''^17.7.2''" by simp
  have b: "\<not> startsWith ''yargs'' ''@arm-debug''" and c: "\<not> startsWith ''yargs'' ''@types''"
    by code_simp+
  have rest: "resolveLoop 7 lock_app [(''@types/node'', ''^20.11.30'')]
       [(''yargs'', ''^17.7.2''), (''semver'', ''^7.6.0'')]
       ([] @ getPackage_console ''yargs'' lock_app @
              (if map_option pkg_version (getPackage ''yargs'' lock_app) \<noteq> Some ''^17.7.2''
               then [Warn_Conflicting ''yargs'' (Own ''^17.7.2'')
                       (map_option pkg_version (getPackage ''yargs'' lock_app))]
               else [])) =
     (Inr [(''yargs'', ''^17.7.2''), (''semver'', ''^7.6.0'')],
      [Warn_Conflicting ''yargs'' (Own ''^17.7.2'') (Some ''18.0.0'')])"
    by code_simp
  from a b c
    recorded_requirement_kept [OF a b c, of 7 lock_app "''^18.0.0''"
      "[(''@types/node'', ''^20.11.30'')]" "[]" "[]"]
  show ?thesis by (simp only: rest simp_thms)
qed


subsection \<open>A root without internal dependencies\<close>

lemma resolveLoop_flat:
  assumes "distinct (map fst ds)"
    and "\<forall>k \<in> set (map fst ds). \<not> startsWith k ''@arm-debug'' \<and> \<not> hasProperty k results"
  shows "fst (resolveLoop depth lockJson ds results con) =
           Inr (results @ filter (\<lambda>(k, v). \<not> startsWith k ''@types'') ds)"
  using assms
proof (induction ds arbitrary: results con)
  case Nil
  show ?case by simp
next
  case (Cons x ds)
  obtain k v where x: "x = (k, v)" by (cases x)
  have external: "\<not> startsWith k ''@arm-debug''" and fresh: "\<not> hasProperty k results"
    using Cons.prems(2) x by simp_all
  have dist: "distinct (map fst ds)" and notin: "k \<notin> set (map fst ds)"
    using Cons.prems(1) x by simp_all
  show ?case
  proof (cases "startsWith k ''@types''")
    case True
    have "fst (resolveLoop depth lockJson ds results con) =
            Inr (results @ filter (\<lambda>(k, v). \<not> startsWith k ''@types'') ds)"
      using dist Cons.prems(2) by (intro Cons.IH) simp_all
    with external True x show ?thesis by simp
  next
    case False
    have "\<forall>k' \<in> set (map fst ds). \<not> startsWith k' ''@arm-debug'' \<and>
             \<not> hasProperty k' (results @ [(k, v)])"
      using Cons.prems(2) notin by (auto simp: hasProperty_def)
    with dist have "fst (resolveLoop depth lockJson ds (results @ [(k, v)]) con) =
            Inr ((results @ [(k, v)]) @ filter (\<lambda>(k, v). \<not> startsWith k ''@types'') ds)"
      by (rule Cons.IH)
    with external False fresh x show ?thesis by simp
  qed
qed

text \<open>With a root whose dependencies are outside the internal namespace and are not
  names that every object inherits, the resolver returns the dependencies of the root
  without the type-only ones, each with its requirement.\<close>

lemma resolve_without_internal:
  assumes "getPackage [] lockJson = Some root"
    and "ds = (case dependencies root of None \<Rightarrow> [] | Some ds \<Rightarrow> ds)"
    and "distinct (map fst ds)"
    and "\<forall>k \<in> set (map fst ds). \<not> startsWith k ''@arm-debug'' \<and> k \<notin> set objectPrototype"
  shows "fst (resolveInternal (Suc depth) lockJson [] [] con) =
           Inr (filter (\<lambda>(k, v). \<not> startsWith k ''@types'') ds)"
proof -
  have "\<forall>k \<in> set (map fst ds). \<not> startsWith k ''@arm-debug'' \<and> \<not> hasProperty k []"
    using assms(4) by (simp add: hasProperty_def)
  with assms(3) have "fst (resolveLoop depth lockJson ds [] con) =
           Inr ([] @ filter (\<lambda>(k, v). \<not> startsWith k ''@types'') ds)"
    by (rule resolveLoop_flat)
  with assms(1,2) show ?thesis by simp
qed

text \<open>
  C7 on a root that depends on the package \<^verbatim>\<open>constructor\<close>: no dependency is in the
  internal namespace and none is type-only, so the claim gives both names with their
  requirements. The test \<^verbatim>\<open>dependency in results\<close> holds for \<^verbatim>\<open>constructor\<close> on the empty
  accumulator, through \<^verbatim>\<open>Object.prototype\<close>; the name is treated as a conflict and never
  recorded, and a manifest that tracks \<^verbatim>\<open>yargs\<close> alone passes with exit code 0.
\<close>

theorem constructor_dependency_dropped:
  "getPackage [] lock_constructor =
     Some \<lparr>pkg_version = ''1.1.0'',
           dependencies = Some [(''constructor'', ''^1.0.0''), (''yargs'', ''^18.0.0'')]\<rparr> \<and>
   \<not> startsWith ''constructor'' ''@arm-debug'' \<and> \<not> startsWith ''yargs'' ''@arm-debug'' \<and>
   \<not> startsWith ''constructor'' ''@types'' \<and> \<not> startsWith ''yargs'' ''@types'' \<and>
   resolveInternal 8 lock_constructor [] [] [] =
     (Inr [(''yargs'', ''^18.0.0'')],
      [Warn_Conflicting ''constructor'' Inherited (Some ''1.0.0'')]) \<and>
   retval (main 8 files_app lock_constructor ''docs/third-party-licenses.json''
             [yargs_done]) = 0"
  by code_simp

end
